theory Spec2Isabelle
  imports Main "HOL-Library.Multiset"
begin

section \<open>Text\<close>

text \<open>
  A Go string is modelled as the sequence of its code points (runes). Every text the
  programs handle comes out of \<^verbatim>\<open>encoding/json\<close>, which replaces invalid UTF-8 by
  U+FFFD, so each string is valid UTF-8 and the byte-level functions the source calls
  (\<^verbatim>\<open>strings.LastIndex\<close>, \<^verbatim>\<open>strings.SplitN\<close>, slicing) cut at an ASCII byte and agree
  with the same cut on code points. A literal is written \<open>str ''verb''\<close>.
\<close>

type_synonym rune = nat
type_synonym gostring = "rune list"

abbreviation str :: "string \<Rightarrow> gostring" where
  "str s \<equiv> map of_char s"

text \<open>\<^verbatim>\<open>unicode.IsSpace\<close>: the code points with the White_Space property.\<close>

definition isSpace :: "rune \<Rightarrow> bool" where
  "isSpace r \<longleftrightarrow>
     r \<in> {9, 10, 11, 12, 13, 32, 133, 160, 5760, 8232, 8233, 8239, 8287, 12288}
     \<or> (8192 \<le> r \<and> r \<le> 8202)"

text \<open>\<^verbatim>\<open>strings.TrimSpace\<close>: leading and trailing white space removed.\<close>

definition TrimSpace :: "gostring \<Rightarrow> gostring" where
  "TrimSpace s = rev (dropWhile isSpace (rev (dropWhile isSpace s)))"

text \<open>\<^verbatim>\<open>strings.Fields\<close>: the maximal runs of non-space code points, in order.\<close>

function Fields :: "gostring \<Rightarrow> gostring list" where
  "Fields s =
     (case dropWhile isSpace s of
        [] \<Rightarrow> []
      | c # cs \<Rightarrow> (c # takeWhile (\<lambda>r. \<not> isSpace r) cs)
                  # Fields (dropWhile (\<lambda>r. \<not> isSpace r) cs))"
  by pat_completeness auto
termination
proof (relation "measure length")
  show "wf (measure length)" by simp
next
  fix s :: gostring and c cs
  assume a: "dropWhile isSpace s = c # cs"
  have "length (dropWhile (\<lambda>r. \<not> isSpace r) cs) \<le> length cs"
    by (rule length_dropWhile_le)
  moreover have "length (c # cs) \<le> length s"
    using length_dropWhile_le [of isSpace s] a by simp
  ultimately show "(dropWhile (\<lambda>r. \<not> isSpace r) cs, s) \<in> measure length"
    by simp
qed

declare Fields.simps [simp del]

text \<open>
  \<^verbatim>\<open>strings.LastIndex(s, "-")\<close> for a one-character separator: the position of its last
  occurrence, or \<open>-1\<close>.
\<close>

definition LastIndex :: "gostring \<Rightarrow> rune \<Rightarrow> int" where
  "LastIndex s c =
     (if c \<in> set s then int (length s) - 1 - int (length (takeWhile (\<lambda>r. r \<noteq> c) (rev s)))
      else - 1)"

text \<open>
  \<^verbatim>\<open>strings.SplitN(s, "+", 2)\<close> for a one-character separator: the text before the first
  occurrence and the text after it, or the whole text alone when there is none.
\<close>

definition SplitN2 :: "gostring \<Rightarrow> rune \<Rightarrow> gostring list" where
  "SplitN2 s c =
     (if c \<in> set s then [takeWhile (\<lambda>r. r \<noteq> c) s, tl (dropWhile (\<lambda>r. r \<noteq> c) s)]
      else [s])"

abbreviation dash :: gostring where "dash \<equiv> [45]"
abbreviation plus_rune :: rune where "plus_rune \<equiv> 43"
abbreviation dash_rune :: rune where "dash_rune \<equiv> 45"

section \<open>Node trees and selections\<close>

text \<open>
  The tree \<^verbatim>\<open>goquery.NewDocumentFromReader\<close> hands back: element nodes with their tag,
  the names in their class attribute and their children, and text nodes. The programs
  look at nothing else. The parser itself is outside the repository and is a
  parameter \<open>parse\<close> of everything that calls it.
\<close>

datatype node = Element gostring "gostring list" "node list" | TextNode gostring

datatype document = Document "node list"

type_synonym Selection = "node list"

fun kids :: "node \<Rightarrow> node list" where
  "kids (Element t cl cs) = cs"
| "kids (TextNode d) = []"

fun getNodeText :: "node \<Rightarrow> gostring" where
  "getNodeText (TextNode d) = d"
| "getNodeText (Element t cl cs) = concat (map getNodeText cs)"

text \<open>A node and everything below it, in document order.\<close>

fun subtree :: "node \<Rightarrow> node list" where
  "subtree (TextNode d) = [TextNode d]"
| "subtree (Element t cl cs) = Element t cl cs # concat (map subtree cs)"

text \<open>The selectors the programs use: \<^verbatim>\<open>td\<close>, \<^verbatim>\<open>.ordklass\<close>, \<^verbatim>\<open>div.article\<close>.\<close>

datatype selector = ByTag gostring | ByClass gostring | ByTagClass gostring gostring

fun matches :: "selector \<Rightarrow> node \<Rightarrow> bool" where
  "matches m (TextNode d) = False"
| "matches (ByTag t) (Element t' cl cs) = (t' = t)"
| "matches (ByClass c) (Element t' cl cs) = (c \<in> set cl)"
| "matches (ByTagClass t c) (Element t' cl cs) = (t' = t \<and> c \<in> set cl)"

text \<open>
  \<^verbatim>\<open>Selection.Find\<close>: the matching nodes strictly below the nodes of the selection, in
  document order. The programs call it on selections of at most one node, where
  goquery's removal of duplicates has nothing to remove.
\<close>

definition Find :: "selector \<Rightarrow> Selection \<Rightarrow> Selection" where
  "Find m sel = concat (map (\<lambda>n. filter (matches m) (concat (map subtree (kids n)))) sel)"

definition docFind :: "selector \<Rightarrow> document \<Rightarrow> Selection" where
  "docFind m doc = (case doc of Document cs \<Rightarrow> filter (matches m) (concat (map subtree cs)))"

text \<open>
  \<^verbatim>\<open>doc.Find(".tabell tr")\<close>, a descendant combinator: the nodes matching the second
  selector that have a proper ancestor matching the first. \<open>inside\<close> says whether such
  an ancestor has been passed on the way down.
\<close>

fun findBelow :: "selector \<Rightarrow> selector \<Rightarrow> bool \<Rightarrow> node \<Rightarrow> node list" where
  "findBelow a d inside (TextNode t) = []"
| "findBelow a d inside (Element t cl cs) =
     (if inside \<and> matches d (Element t cl cs) then [Element t cl cs] else [])
     @ concat (map (findBelow a d (inside \<or> matches a (Element t cl cs))) cs)"

definition docFindBelow :: "selector \<Rightarrow> selector \<Rightarrow> document \<Rightarrow> Selection" where
  "docFindBelow a d doc = (case doc of Document cs \<Rightarrow> concat (map (findBelow a d False) cs))"

text \<open>\<^verbatim>\<open>Selection.First\<close>, \<^verbatim>\<open>Selection.Eq\<close> and \<^verbatim>\<open>Selection.Text\<close>.\<close>

definition First :: "Selection \<Rightarrow> Selection" where
  "First sel = take 1 sel"

definition Eq :: "Selection \<Rightarrow> nat \<Rightarrow> Selection" where
  "Eq sel i = (if i < length sel then [sel ! i] else [])"

definition Text :: "Selection \<Rightarrow> gostring" where
  "Text sel = concat (map getNodeText sel)"

section \<open>The extraction passes\<close>

text \<open>
  Each pass visits the rows \<^verbatim>\<open>doc.Find(".tabell tr")\<close> in order. The callback of
  \<^verbatim>\<open>Each\<close> reads and writes two local variables, the current header label and the
  records so far; they are the state of the fold.
\<close>

definition tableRows :: "document \<Rightarrow> Selection" where
  "tableRows doc = docFindBelow (ByClass (str ''tabell'')) (ByTag (str ''tr'')) doc"

definition headerCells :: "node \<Rightarrow> Selection" where
  "headerCells s = Find (ByTagClass (str ''th'') (str ''ordformth'')) [s]"

definition valueCells :: "node \<Rightarrow> Selection" where
  "valueCells s = Find (ByTag (str ''td'')) [s]"

definition headerLabel :: "node \<Rightarrow> gostring" where
  "headerLabel s = TrimSpace (Text (Find (ByTag (str ''i'')) (headerCells s)))"

definition parseSubstantiv_row :: "node \<Rightarrow> gostring \<times> gostring list \<Rightarrow> gostring \<times> gostring list" where
  "parseSubstantiv_row s st =
     (case st of (currentCase, nouns) \<Rightarrow>
        if length (headerCells s) = 1 then (headerLabel s, nouns)
        else
          let tds = valueCells s in
          if length tds \<noteq> 2 then (currentCase, nouns)
          else
            let nounText = TrimSpace (Text (Eq tds 0));
                ledText = TrimSpace (Text (Eq tds 1));
                parts = Fields ledText;
                ledWord = (if length parts > 0 then parts ! 0 else [])
            in (currentCase, nouns @ [nounText @ dash @ ledWord @ dash @ currentCase]))"

definition parseSubstantiv :: "document \<Rightarrow> gostring list" where
  "parseSubstantiv doc = snd (fold parseSubstantiv_row (tableRows doc) ([], []))"

definition parseVerbForms_row :: "node \<Rightarrow> gostring \<times> gostring list \<Rightarrow> gostring \<times> gostring list" where
  "parseVerbForms_row s st =
     (case st of (currentSection, forms) \<Rightarrow>
        if length (headerCells s) = 1 then (headerLabel s, forms)
        else
          let tds = valueCells s in
          if length tds = 0 then (currentSection, forms)
          else
            let formText = TrimSpace (Text (Eq tds 0));
                tenseVoice = (if length tds > 1 then TrimSpace (Text (Eq tds 1)) else []);
                entry = formText @ (if tenseVoice \<noteq> [] then dash @ tenseVoice else [])
                          @ dash @ currentSection
            in (currentSection, forms @ [entry]))"

definition parseVerbForms :: "document \<Rightarrow> gostring list" where
  "parseVerbForms doc = snd (fold parseVerbForms_row (tableRows doc) ([], []))"

definition parseAdjektiv_row :: "node \<Rightarrow> gostring \<times> gostring list \<Rightarrow> gostring \<times> gostring list" where
  "parseAdjektiv_row s st =
     (case st of (currentDegree, entries) \<Rightarrow>
        if length (headerCells s) = 1 then (headerLabel s, entries)
        else
          let tds = valueCells s in
          if length tds \<noteq> 1 then (currentDegree, entries)
          else
            let raw = TrimSpace (Text (Eq tds 0));
                parts = SplitN2 raw plus_rune;
                form = TrimSpace (parts ! 0)
            in (currentDegree, entries @ [form @ dash @ currentDegree]))"

definition parseAdjektiv :: "document \<Rightarrow> gostring list" where
  "parseAdjektiv doc = snd (fold parseAdjektiv_row (tableRows doc) ([], []))"

section \<open>The category stage\<close>

text \<open>
  \<^verbatim>\<open>verbJSON\<close> and \<^verbatim>\<open>AdjectiveEntry\<close> are the same struct: a class name and a Go map
  from labels to lists of forms.
\<close>

record FormsEntry =
  Class :: gostring
  Forms :: "gostring \<rightharpoonup> gostring list"

text \<open>
  The body of the inner loop of \<^verbatim>\<open>saveVerbsJSON\<close> and of \<^verbatim>\<open>saveAdjectivesJSON\<close>
  (the same statements under different variable names): cut the tagged string at its
  last \<open>-\<close> and append the front part to the bucket named by the back part, if the map
  has that key.
\<close>

definition bucketTagged :: "gostring \<Rightarrow> (gostring \<rightharpoonup> gostring list) \<Rightarrow> (gostring \<rightharpoonup> gostring list)" where
  "bucketTagged tagged forms =
     (let last = LastIndex tagged dash_rune in
      if last < 0 then forms
      else
        let section = drop (nat (last + 1)) tagged;
            fv = take (nat last) tagged
        in (case forms section of
              Some vs \<Rightarrow> forms(section \<mapsto> vs @ [fv])
            | None \<Rightarrow> forms))"

definition verbForms0 :: "gostring \<rightharpoonup> gostring list" where
  "verbForms0 =
     [str ''Finita former'' \<mapsto> [], str ''Infinita former'' \<mapsto> [],
      str ''Presens particip'' \<mapsto> [], str ''Perfekt particip'' \<mapsto> []]"

definition adjektivForms0 :: "gostring \<rightharpoonup> gostring list" where
  "adjektivForms0 =
     [str ''Positiv'' \<mapsto> [], str ''Komparativ'' \<mapsto> [], str ''Superlativ'' \<mapsto> []]"

definition verbEntry :: "gostring list \<Rightarrow> FormsEntry" where
  "verbEntry raw = \<lparr>Class = str ''verb'', Forms = fold bucketTagged raw verbForms0\<rparr>"

definition adjektivEntry :: "gostring list \<Rightarrow> FormsEntry" where
  "adjektivEntry rawForms =
     \<lparr>Class = str ''adjektiv'', Forms = fold bucketTagged rawForms adjektivForms0\<rparr>"

text \<open>
  A Go slice is \<^verbatim>\<open>nil\<close> or holds a sequence of elements; \<^verbatim>\<open>json.MarshalIndent\<close> writes
  the first as \<^verbatim>\<open>null\<close> and the second as an array, \<^verbatim>\<open>[]\<close> when the sequence is empty.
  \<^verbatim>\<open>append\<close> to either gives a slice that is not \<^verbatim>\<open>nil\<close>.
\<close>

datatype 'a slice = NilSlice | Slice (items: "'a list")

fun appendSlice :: "'a slice \<Rightarrow> 'a \<Rightarrow> 'a slice" where
  "appendSlice NilSlice x = Slice [x]"
| "appendSlice (Slice xs) x = Slice (xs @ [x])"

text \<open>
  What \<^verbatim>\<open>saveVerbsJSON\<close> and \<^verbatim>\<open>saveAdjectivesJSON\<close> hand to \<^verbatim>\<open>json.MarshalIndent\<close>
  and \<^verbatim>\<open>ioutil.WriteFile\<close>: the file name and the slice of entries, one per document,
  in the order of the argument. \<^verbatim>\<open>saveVerbsJSON\<close> declares \<^verbatim>\<open>var out []verbJSON\<close>, a
  \<^verbatim>\<open>nil\<close> slice, and appends to it; \<^verbatim>\<open>saveAdjectivesJSON\<close> allocates its slice with
  \<^verbatim>\<open>make\<close> and fills it by index.
\<close>

definition saveVerbsJSON :: "gostring list list \<Rightarrow> gostring \<Rightarrow> gostring \<times> FormsEntry slice" where
  "saveVerbsJSON all filename =
     (filename, fold (\<lambda>raw out. appendSlice out (verbEntry raw)) all NilSlice)"

definition saveAdjectivesJSON :: "gostring list list \<Rightarrow> gostring \<Rightarrow> gostring \<times> FormsEntry slice" where
  "saveAdjectivesJSON adjs filename = (filename, Slice (map adjektivEntry adjs))"

text \<open>
  \<^verbatim>\<open>LemmaOutput\<close> of the flattening program and \<^verbatim>\<open>LemmaInput\<close> of the category stage
  are the same struct: the second program reads the file the first one writes.
\<close>

record LemmaOutput =
  HTML :: gostring
  FamilyID :: int

type_synonym LemmaInput = LemmaOutput

type_synonym liberr = gostring

datatype fatal = ErrOpen liberr | ErrDecode liberr | ErrParse liberr | ErrWrite gostring liberr

definition allowedOrdklass :: "gostring \<Rightarrow> bool" where
  "allowedOrdklass k \<longleftrightarrow>
     k = str ''substantiv'' \<or> k = str ''verb'' \<or> k = str ''adjektiv'' \<or> k = str ''adverb''"

text \<open>
  \<^verbatim>\<open>FilterLemmasByOrdklass\<close>. Opening and decoding the file is the environment's part:
  \<open>loaded\<close> is its outcome, an error or the decoded \<^verbatim>\<open>map[string]LemmaInput\<close>. The loop
  is a \<^verbatim>\<open>range\<close> over that Go map, whose iteration order the language leaves open, so
  the decoded map is given as the sequence of its entries in the order this run iterates
  them (keys distinct).
\<close>

definition filterStep :: "(gostring \<Rightarrow> liberr + document) \<Rightarrow> gostring \<times> LemmaInput \<Rightarrow> gostring list \<Rightarrow> gostring list" where
  "filterStep parse ke matchingHTMLs =
     (case ke of (key, entry) \<Rightarrow>
        (case parse (HTML entry) of
           Inl err \<Rightarrow> matchingHTMLs
         | Inr doc \<Rightarrow>
             let ordklassText = TrimSpace (Text (First (docFind (ByClass (str ''ordklass'')) doc)))
             in if allowedOrdklass ordklassText then matchingHTMLs @ [HTML entry]
                else matchingHTMLs))"

definition FilterLemmasByOrdklass ::
  "(gostring \<Rightarrow> liberr + document) \<Rightarrow> fatal + (gostring \<times> LemmaInput) list \<Rightarrow> fatal + gostring list" where
  "FilterLemmasByOrdklass parse loaded =
     (case loaded of
        Inl err \<Rightarrow> Inl err
      | Inr inputMap \<Rightarrow> Inr (fold (filterStep parse) inputMap []))"

text \<open>
  The loop of \<^verbatim>\<open>main\<close> over the filtered lemmas; \<^verbatim>\<open>log.Fatal\<close> on a parse error ends
  the run.
\<close>

fun classify ::
  "(gostring \<Rightarrow> liberr + document) \<Rightarrow> gostring list
     \<Rightarrow> gostring list list \<times> gostring list list \<times> gostring list list
     \<Rightarrow> fatal + gostring list list \<times> gostring list list \<times> gostring list list" where
  "classify parse [] acc = Inr acc"
| "classify parse (h # hs) (nouns, verbs, adjectives) =
     (case parse h of
        Inl err \<Rightarrow> Inl (ErrParse err)
      | Inr doc \<Rightarrow>
          let k = Text (docFind (ByClass (str ''ordklass'')) doc) in
          if k = str ''substantiv'' then
            classify parse hs (nouns @ [parseSubstantiv doc], verbs, adjectives)
          else if k = str ''verb'' then
            classify parse hs (nouns, verbs @ [parseVerbForms doc], adjectives)
          else if k = str ''adjektiv'' then
            classify parse hs (nouns, verbs, adjectives @ [parseAdjektiv doc])
          else classify parse hs (nouns, verbs, adjectives))"

text \<open>
  A run of the category stage: the files it has written, in order, and the fatal error
  that ended it, if any. \<open>write\<close> is the file system's answer to \<^verbatim>\<open>ioutil.WriteFile\<close>.
\<close>

record Run =
  files :: "(gostring \<times> FormsEntry slice) list"
  fatal :: "fatal option"

definition main_category ::
  "(gostring \<Rightarrow> liberr + document) \<Rightarrow> (gostring \<Rightarrow> liberr option)
     \<Rightarrow> fatal + (gostring \<times> LemmaInput) list \<Rightarrow> Run" where
  "main_category parse write loaded =
     (case FilterLemmasByOrdklass parse loaded of
        Inl err \<Rightarrow> \<lparr>files = [], fatal = Some err\<rparr>
      | Inr filteredHTMLs \<Rightarrow>
          (case classify parse filteredHTMLs ([], [], []) of
             Inl err \<Rightarrow> \<lparr>files = [], fatal = Some err\<rparr>
           | Inr (nouns, verbs, adjectives) \<Rightarrow>
               (case write (str ''adjectives.json'') of
                  Some err \<Rightarrow> \<lparr>files = [], fatal = Some (ErrWrite (str ''adjectives.json'') err)\<rparr>
                | None \<Rightarrow>
                    (case write (str ''verbs.json'') of
                       Some err \<Rightarrow>
                         \<lparr>files = [saveAdjectivesJSON adjectives (str ''adjectives.json'')],
                          fatal = Some (ErrWrite (str ''verbs.json'') err)\<rparr>
                     | None \<Rightarrow>
                         \<lparr>files = [saveAdjectivesJSON adjectives (str ''adjectives.json''),
                                   saveVerbsJSON verbs (str ''verbs.json'')],
                          fatal = None\<rparr>))))"

section \<open>The two worker-pool programs\<close>

text \<open>
  \<^verbatim>\<open>clean_saol_json.go\<close> (one cleaned article per document) and the flattening program
  (one entry per lemma of each document) share the dispatcher, the collector and the
  sort; they differ in the worker's payload, in the assembly loop and in one statement
  of the dispatcher's error branch. Go's \<^verbatim>\<open>int\<close> is 64 bits wide; the counters count
  elements of a file held in memory and are far from wrapping, so they are \<open>int\<close> here.
\<close>

record InputEntry =
  html :: gostring

record Job =
  Index :: int
  Data :: InputEntry

text \<open>The two errors a worker wraps with \<^verbatim>\<open>fmt.Errorf\<close>.\<close>

datatype error = FailedToParseHTML liberr | FailedToGetInnerHTML liberr

text \<open>\<^verbatim>\<open>Result\<close> of the flattening program.\<close>

record Result =
  rIndex :: int
  LemmaHTMLs :: "gostring list"
  rError :: "error option"

text \<open>\<^verbatim>\<open>Result\<close> of \<^verbatim>\<open>clean_saol_json.go\<close>.\<close>

record CleanResult =
  cIndex :: int
  CleanedHTML :: gostring
  cError :: "error option"

subsection \<open>The JSON stream\<close>

text \<open>
  After the opening bracket the input is a sequence of array elements, each a complete
  JSON value. \<^verbatim>\<open>Decoder.Decode(&entry)\<close> first reads one whole value and then
  unmarshals it: an element either decodes into an \<^verbatim>\<open>InputEntry\<close>, or it is a value of
  the wrong shape (a number, a string, an object whose \<^verbatim>\<open>html\<close> is not a string) and
  \<^verbatim>\<open>Decode\<close> returns a type error with the value already consumed. The decoder's state
  is the sequence of elements still unread. Text that is not JSON at all is not an
  element of any sequence and is outside this model.
\<close>

datatype element = Decodable InputEntry | Undecodable

datatype decodeErr = EOF | UnmarshalTypeError | SyntaxError

definition More :: "element list \<Rightarrow> bool" where
  "More d \<longleftrightarrow> d \<noteq> []"

fun Decode :: "element list \<Rightarrow> (decodeErr + InputEntry) \<times> element list" where
  "Decode [] = (Inl SyntaxError, [])"
| "Decode (Decodable entry # d) = (Inr entry, d)"
| "Decode (Undecodable # d) = (Inl UnmarshalTypeError, d)"

text \<open>
  \<^verbatim>\<open>_ = decoder.Decode(&raw)\<close> with \<^verbatim>\<open>raw\<close> a \<^verbatim>\<open>json.RawMessage\<close>: any value
  unmarshals into it, so it consumes the next element whatever it is; at the end of the
  array it fails, and the error is dropped.
\<close>

fun DecodeRaw :: "element list \<Rightarrow> element list" where
  "DecodeRaw [] = []"
| "DecodeRaw (e # d) = d"

lemma Decode_shorter: "More d \<Longrightarrow> length (snd (Decode d)) < length d"
  by (cases d rule: Decode.cases) (simp_all add: More_def)

lemma DecodeRaw_le: "length (DecodeRaw d) \<le> length d"
  by (cases d) simp_all

subsection \<open>The dispatchers\<close>

text \<open>
  The loop \<^verbatim>\<open>for decoder.More()\<close>; the result is the sequence of jobs sent on the
  \<^verbatim>\<open>jobs\<close> channel. The version of \<^verbatim>\<open>clean_saol_json.go\<close>:
\<close>

function dispatch_clean :: "int \<Rightarrow> element list \<Rightarrow> Job list" where
  "dispatch_clean index d =
     (if More d then
        (case Decode d of
           (Inl err, d') \<Rightarrow>
             if err = EOF then [] else dispatch_clean (index + 1) d'
         | (Inr entry, d') \<Rightarrow>
             \<lparr>Index = index, Data = entry\<rparr> # dispatch_clean (index + 1) d')
      else [])"
  by pat_completeness auto
termination
proof (relation "measure (\<lambda>(index, d). length d)")
  show "wf (measure (\<lambda>(index, d). length d))" by simp
next
  fix index :: int and d x1 d' err
  assume "More d" and "(x1, d') = Decode d"
  then have "length d' < length d"
    using Decode_shorter [of d] by (metis snd_conv)
  then show "((index + 1, d'), index, d) \<in> measure (\<lambda>(index, d). length d)"
    by simp
next
  fix index :: int and d x1 d' entry
  assume "More d" and "(x1, d') = Decode d"
  then have "length d' < length d"
    using Decode_shorter [of d] by (metis snd_conv)
  then show "((index + 1, d'), index, d) \<in> measure (\<lambda>(index, d). length d)"
    by simp
qed

declare dispatch_clean.simps [simp del]

text \<open>
  The flattening program's version: its error branch decodes once more into a
  \<^verbatim>\<open>json.RawMessage\<close> before it advances the index.
\<close>

function dispatch_flat :: "int \<Rightarrow> element list \<Rightarrow> Job list" where
  "dispatch_flat index d =
     (if More d then
        (case Decode d of
           (Inl err, d') \<Rightarrow>
             if err = EOF then [] else dispatch_flat (index + 1) (DecodeRaw d')
         | (Inr entry, d') \<Rightarrow>
             \<lparr>Index = index, Data = entry\<rparr> # dispatch_flat (index + 1) d')
      else [])"
  by pat_completeness auto
termination
proof (relation "measure (\<lambda>(index, d). length d)")
  show "wf (measure (\<lambda>(index, d). length d))" by simp
next
  fix index :: int and d x1 d' err
  assume "More d" and "(x1, d') = Decode d"
  then have "length d' < length d"
    using Decode_shorter [of d] by (metis snd_conv)
  then show "((index + 1, DecodeRaw d'), index, d) \<in> measure (\<lambda>(index, d). length d)"
    using DecodeRaw_le [of d'] by simp
next
  fix index :: int and d x1 d' entry
  assume "More d" and "(x1, d') = Decode d"
  then have "length d' < length d"
    using Decode_shorter [of d] by (metis snd_conv)
  then show "((index + 1, d'), index, d) \<in> measure (\<lambda>(index, d). length d)"
    by simp
qed

declare dispatch_flat.simps [simp del]

subsection \<open>The workers\<close>

text \<open>
  The body of the loop \<^verbatim>\<open>for job := range jobs\<close>, as the sequence of values it sends on
  the \<^verbatim>\<open>results\<close> channel while it handles one job. \<open>parse\<close> is
  \<^verbatim>\<open>goquery.NewDocumentFromReader\<close> and \<open>Html\<close> is \<^verbatim>\<open>Selection.Html\<close> on one node, both
  from the library.
\<close>

definition worker_job_clean ::
  "(gostring \<Rightarrow> liberr + document) \<Rightarrow> (node \<Rightarrow> liberr + gostring) \<Rightarrow> Job \<Rightarrow> CleanResult list" where
  "worker_job_clean parse Html job =
     (case parse (html (Data job)) of
        Inl err \<Rightarrow>
          [\<lparr>cIndex = Index job, CleanedHTML = [], cError = Some (FailedToParseHTML err)\<rparr>]
      | Inr doc \<Rightarrow>
          let selection = docFind (ByTagClass (str ''div'') (str ''article'')) doc in
          if length selection = 0 then
            [\<lparr>cIndex = Index job, CleanedHTML = [], cError = None\<rparr>]
          else
            (case Html (hd (First selection)) of
               Inl err \<Rightarrow>
                 [\<lparr>cIndex = Index job, CleanedHTML = [],
                   cError = Some (FailedToGetInnerHTML err)\<rparr>]
             | Inr cleanedHTML \<Rightarrow>
                 [\<lparr>cIndex = Index job, CleanedHTML = cleanedHTML, cError = None\<rparr>]))"

definition worker_job ::
  "(gostring \<Rightarrow> liberr + document) \<Rightarrow> (node \<Rightarrow> liberr + gostring) \<Rightarrow> Job \<Rightarrow> Result list" where
  "worker_job parse Html job =
     (case parse (html (Data job)) of
        Inl err \<Rightarrow>
          [\<lparr>rIndex = Index job, LemmaHTMLs = [], rError = Some (FailedToParseHTML err)\<rparr>]
      | Inr doc \<Rightarrow>
          let articleSelection = docFind (ByTagClass (str ''div'') (str ''article'')) doc in
          if length articleSelection = 0 then
            [\<lparr>rIndex = Index job, LemmaHTMLs = [], rError = None\<rparr>]
          else
            let lemmaSelection =
                  Find (ByTagClass (str ''div'') (str ''lemma'')) (First articleSelection);
                lemmasHTML =
                  fold (\<lambda>s acc. case Html s of Inl err \<Rightarrow> acc | Inr h \<Rightarrow> acc @ [h])
                    lemmaSelection []
            in [\<lparr>rIndex = Index job, LemmaHTMLs = lemmasHTML, rError = None\<rparr>])"

text \<open>A worker's whole loop over the jobs it receives.\<close>

definition worker_clean ::
  "(gostring \<Rightarrow> liberr + document) \<Rightarrow> (node \<Rightarrow> liberr + gostring) \<Rightarrow> Job list \<Rightarrow> CleanResult list" where
  "worker_clean parse Html jobs = concat (map (worker_job_clean parse Html) jobs)"

definition worker ::
  "(gostring \<Rightarrow> liberr + document) \<Rightarrow> (node \<Rightarrow> liberr + gostring) \<Rightarrow> Job list \<Rightarrow> Result list" where
  "worker parse Html jobs = concat (map (worker_job parse Html) jobs)"

subsection \<open>Collector, sort and assembly\<close>

text \<open>
  The collector goroutine reads the results in the order the workers finish: its
  argument is the sequence, in arrival order, of everything sent on \<^verbatim>\<open>results\<close>.
\<close>

definition collect :: "Result list \<Rightarrow> Result list" where
  "collect rs = fold (\<lambda>res collected. if rError res \<noteq> None then collected
                                       else collected @ [res]) rs []"

definition collect_clean :: "CleanResult list \<Rightarrow> CleanResult list" where
  "collect_clean rs = fold (\<lambda>res collected. if cError res \<noteq> None then collected
                                             else collected @ [res]) rs []"

text \<open>
  \<^verbatim>\<open>sort.Slice\<close> by \<^verbatim>\<open>Index\<close> is modelled by insertion sort on the key. \<^verbatim>\<open>sort.Slice\<close>
  is not stable, but the indices it sorts are pairwise distinct, and then every sorting
  procedure returns the same sequence (lemma \<open>sorted_result_unique\<close> below).
\<close>

definition sortByIndex :: "Result list \<Rightarrow> Result list" where
  "sortByIndex collected = sort_key rIndex collected"

definition sortByIndex_clean :: "CleanResult list \<Rightarrow> CleanResult list" where
  "sortByIndex_clean collected = sort_key cIndex collected"

text \<open>The assembly loops: the state is \<^verbatim>\<open>finalOutput\<close> and \<^verbatim>\<open>outputKey\<close>.\<close>

definition emitLemmas ::
  "int \<Rightarrow> gostring list \<Rightarrow> (int \<rightharpoonup> LemmaOutput) \<times> int \<Rightarrow> (int \<rightharpoonup> LemmaOutput) \<times> int" where
  "emitLemmas familyID lemmas st =
     fold (\<lambda>lemmaHTML (finalOutput, outputKey).
             (finalOutput(outputKey \<mapsto> \<lparr>HTML = lemmaHTML, FamilyID = familyID\<rparr>),
              outputKey + 1))
       lemmas st"

definition assemble :: "Result list \<Rightarrow> (int \<rightharpoonup> LemmaOutput) \<times> int" where
  "assemble collected =
     fold (\<lambda>res. emitLemmas (rIndex res + 1) (LemmaHTMLs res)) collected (Map.empty, 1)"

definition assemble_clean :: "CleanResult list \<Rightarrow> (int \<rightharpoonup> gostring) \<times> int" where
  "assemble_clean collected =
     fold (\<lambda>res (finalOutput, outputKey).
             (finalOutput(outputKey \<mapsto> CleanedHTML res), outputKey + 1))
       collected (Map.empty, 1)"

text \<open>
  What \<^verbatim>\<open>main\<close> hands to the JSON encoder, given the order \<open>arrived\<close> in which the
  results reached the collector.
\<close>

definition finalOutput :: "Result list \<Rightarrow> (int \<rightharpoonup> LemmaOutput)" where
  "finalOutput arrived = fst (assemble (sortByIndex (collect arrived)))"

definition finalOutput_clean :: "CleanResult list \<Rightarrow> (int \<rightharpoonup> gostring)" where
  "finalOutput_clean arrived = fst (assemble_clean (sortByIndex_clean (collect_clean arrived)))"

section \<open>Notions used to state the properties\<close>

text \<open>The first white-space-delimited token of a text, empty if there is none.\<close>

definition firstToken :: "gostring \<Rightarrow> gostring" where
  "firstToken t = takeWhile (\<lambda>r. \<not> isSpace r) (dropWhile isSpace t)"

text \<open>A row is a header row when it holds exactly one \<^verbatim>\<open>th.ordformth\<close>.\<close>

definition isHeader :: "node \<Rightarrow> bool" where
  "isHeader s \<longleftrightarrow> length (headerCells s) = 1"

text \<open>The text of the \<open>i\<close>-th \<^verbatim>\<open>td\<close> of a row.\<close>

definition cellText :: "node \<Rightarrow> nat \<Rightarrow> gostring" where
  "cellText s i = Text (Eq (valueCells s) i)"

text \<open>
  The value a verb row contributes: the text of its first cell and, if the row has a
  second cell whose text is not blank, a \<open>-\<close> and that text.
\<close>

definition verbValue :: "node \<Rightarrow> gostring" where
  "verbValue s =
     TrimSpace (cellText s 0)
     @ (if length (valueCells s) > 1 \<and> TrimSpace (cellText s 1) \<noteq> []
        then dash @ TrimSpace (cellText s 1) else [])"

text \<open>
  What the category stage does with one lemma: whether \<^verbatim>\<open>FilterLemmasByOrdklass\<close>
  keeps it, the tree \<^verbatim>\<open>main\<close> then parses it into, and the text \<^verbatim>\<open>main\<close> switches
  on.
\<close>

definition keeps :: "(gostring \<Rightarrow> liberr + document) \<Rightarrow> gostring \<Rightarrow> bool" where
  "keeps parse h =
     (case parse h of
        Inl err \<Rightarrow> False
      | Inr doc \<Rightarrow>
          allowedOrdklass (TrimSpace (Text (First (docFind (ByClass (str ''ordklass'')) doc)))))"

definition keptLemmas ::
  "(gostring \<Rightarrow> liberr + document) \<Rightarrow> (gostring \<times> LemmaInput) list \<Rightarrow> gostring list" where
  "keptLemmas parse order = map (HTML \<circ> snd) (filter (keeps parse \<circ> HTML \<circ> snd) order)"

definition parsed :: "(gostring \<Rightarrow> liberr + document) \<Rightarrow> gostring \<Rightarrow> document" where
  "parsed parse h = (case parse h of Inl err \<Rightarrow> Document [] | Inr doc \<Rightarrow> doc)"

definition switchKey :: "(gostring \<Rightarrow> liberr + document) \<Rightarrow> gostring \<Rightarrow> gostring" where
  "switchKey parse h = Text (docFind (ByClass (str ''ordklass'')) (parsed parse h))"

text \<open>
  The content of a written slice up to the order of its elements: nothing for \<^verbatim>\<open>nil\<close>,
  else the elements with their multiplicities.
\<close>

definition bag :: "'a slice \<Rightarrow> 'a multiset option" where
  "bag out = (case out of NilSlice \<Rightarrow> None | Slice xs \<Rightarrow> Some (mset xs))"

text \<open>
  The entries of the flattened output in key order: for each collected result in turn,
  one entry per lemma, tagged with the result's index plus one.
\<close>

definition flatten :: "Result list \<Rightarrow> LemmaOutput list" where
  "flatten collected =
     concat (map (\<lambda>res. map (\<lambda>h. \<lparr>HTML = h, FamilyID = rIndex res + 1\<rparr>) (LemmaHTMLs res))
               collected)"

section \<open>Example documents\<close>

text \<open>
  \<^verbatim>\<open>html.Parse\<close> wraps the content of a fragment in \<^verbatim>\<open>html\<close>, an empty \<^verbatim>\<open>head\<close> and
  \<^verbatim>\<open>body\<close>, and the rows of a table in \<^verbatim>\<open>tbody\<close>.
\<close>

definition page :: "node list \<Rightarrow> document" where
  "page content =
     Document [Element (str ''html'') []
                 [Element (str ''head'') [] [], Element (str ''body'') [] content]]"

definition headerRow :: "string \<Rightarrow> node" where
  "headerRow label =
     Element (str ''tr'') []
       [Element (str ''th'') [str ''ordformth''] [Element (str ''i'') [] [TextNode (str label)]]]"

definition valueRow :: "string list \<Rightarrow> node" where
  "valueRow cells =
     Element (str ''tr'') [] (map (\<lambda>c. Element (str ''td'') [] [TextNode (str c)]) cells)"

definition lemmaPage :: "string \<Rightarrow> node list \<Rightarrow> document" where
  "lemmaPage ordklass rows =
     page [Element (str ''span'') [str ''ordklass''] [TextNode (str ordklass)],
           Element (str ''table'') [str ''tabell''] [Element (str ''tbody'') [] rows]]"

text \<open>
  A verb lemma with the header rows \<^verbatim>\<open>Presens\<close> and \<^verbatim>\<open>Preteritum\<close>, and the same
  table under two labels that \<^verbatim>\<open>saveVerbsJSON\<close> knows.
\<close>

definition ex_presens :: document where
  "ex_presens =
     lemmaPage ''verb''
       [headerRow ''Presens'', valueRow [''springer'', ''aktiv''],
        valueRow [''springs'', ''passiv''],
        headerRow ''Preteritum'', valueRow [''sprang'', ''aktiv'']]"

definition ex_finita :: document where
  "ex_finita =
     lemmaPage ''verb''
       [headerRow ''Finita former'', valueRow [''springer'', ''presens aktiv''],
        valueRow [''springs'', ''presens passiv''],
        headerRow ''Infinita former'', valueRow [''springa'', ''infinitiv aktiv'']]"

text \<open>A verb lemma whose only value row has one cell, and a second verb lemma.\<close>

definition ex_onecell :: document where
  "ex_onecell = lemmaPage ''verb'' [headerRow ''Finita former'', valueRow [''springer'']]"

definition ex_hoppa :: document where
  "ex_hoppa =
     lemmaPage ''verb'' [headerRow ''Finita former'', valueRow [''hoppar'', ''presens aktiv'']]"

text \<open>Noun, adjective and adverb lemmas.\<close>

definition ex_bil :: document where
  "ex_bil =
     lemmaPage ''substantiv''
       [headerRow ''Singular'', valueRow [''en bil'', ''obest. form''],
        valueRow [''bilen''], valueRow [''bils'', ''obest. form genitiv'', ''x'']]"

definition ex_glad :: document where
  "ex_glad =
     lemmaPage ''adjektiv''
       [headerRow ''Positiv'', valueRow ['' glad + en glad nyhet ''],
        valueRow [''glatt'', ''neutrum''],
        headerRow ''Komparativ'', valueRow [''gladare'']]"

text \<open>A noun lemma and an adjective lemma with one header row and one value row.\<close>

definition ex_singular :: document where
  "ex_singular =
     lemmaPage ''substantiv'' [headerRow ''Singular'', valueRow [''en bil'', ''obest. form'']]"

definition ex_positiv :: document where
  "ex_positiv =
     lemmaPage ''adjektiv'' [headerRow ''Positiv'', valueRow ['' glad + en glad nyhet '']]"

definition ex_ofta :: document where
  "ex_ofta = page [Element (str ''span'') [str ''ordklass''] [TextNode (str ''adverb'')]]"

text \<open>The markup of these lemmas.\<close>

definition springa_html :: gostring where
  "springa_html =
     str ''<span class=ordklass>verb</span><table class=tabell><tr><th class=ordformth><i>Finita former</i></th></tr><tr><td>springer</td><td>presens aktiv</td></tr><tr><td>springs</td><td>presens passiv</td></tr><tr><th class=ordformth><i>Infinita former</i></th></tr><tr><td>springa</td><td>infinitiv aktiv</td></tr></table>''"

definition hoppa_html :: gostring where
  "hoppa_html =
     str ''<span class=ordklass>verb</span><table class=tabell><tr><th class=ordformth><i>Finita former</i></th></tr><tr><td>hoppar</td><td>presens aktiv</td></tr></table>''"

definition bil_html :: gostring where
  "bil_html =
     str ''<span class=ordklass>substantiv</span><table class=tabell><tr><th class=ordformth><i>Singular</i></th></tr><tr><td>en bil</td><td>obest. form</td></tr><tr><td>bilen</td></tr><tr><td>bils</td><td>obest. form genitiv</td><td>x</td></tr></table>''"

definition glad_html :: gostring where
  "glad_html =
     str ''<span class=ordklass>adjektiv</span><table class=tabell><tr><th class=ordformth><i>Positiv</i></th></tr><tr><td> glad + en glad nyhet </td></tr><tr><td>glatt</td><td>neutrum</td></tr><tr><th class=ordformth><i>Komparativ</i></th></tr><tr><td>gladare</td></tr></table>''"

definition ofta_html :: gostring where
  "ofta_html = str ''<span class=ordklass>adverb</span>''"

text \<open>A document with two lemmas in its article, and one with no article.\<close>

definition ex_article :: document where
  "ex_article =
     page [Element (str ''div'') [str ''article'']
             [Element (str ''div'') [str ''lemma''] [TextNode (str ''a'')],
              Element (str ''div'') [str ''lemma''] [TextNode (str ''b'')]]]"

definition ex_plain :: document where
  "ex_plain = page [Element (str ''p'') [] [TextNode (str ''hej'')]]"

text \<open>
  A parser for the examples: on the markup listed it returns the tree \<^verbatim>\<open>html.Parse\<close>
  builds for it, elsewhere an empty page.
\<close>

definition ex_parse :: "gostring \<Rightarrow> liberr + document" where
  "ex_parse s =
     (if s = str ''<div class=article><div class=lemma>a</div><div class=lemma>b</div></div>''
      then Inr ex_article
      else if s = str ''<p>hej</p>'' then Inr ex_plain
      else if s = springa_html then Inr ex_finita
      else if s = hoppa_html then Inr ex_hoppa
      else if s = bil_html then Inr ex_bil
      else if s = glad_html then Inr ex_glad
      else if s = ofta_html then Inr ex_ofta
      else Inr (page []))"

text \<open>
  The inner HTML of a node, as \<^verbatim>\<open>html.Render\<close> prints trees of elements that carry no
  attribute but \<^verbatim>\<open>class\<close> and of text free of markup characters.
\<close>

fun joinSpace :: "gostring list \<Rightarrow> gostring" where
  "joinSpace [] = []"
| "joinSpace [c] = c"
| "joinSpace (c # cs) = c @ [32] @ joinSpace cs"

fun render :: "node \<Rightarrow> gostring" where
  "render (TextNode d) = d"
| "render (Element t cl cs) =
     str ''<'' @ t @ (if cl = [] then [] else str '' class='' @ [34] @ joinSpace cl @ [34])
     @ str ''>'' @ concat (map render cs) @ str ''</'' @ t @ str ''>''"

definition ex_Html :: "node \<Rightarrow> liberr + gostring" where
  "ex_Html n = Inr (concat (map render (kids n)))"

definition ex_input :: "element list" where
  "ex_input =
     [Decodable \<lparr>html = str ''<p>hej</p>''\<rparr>,
      Decodable \<lparr>html =
        str ''<div class=article><div class=lemma>a</div><div class=lemma>b</div></div>''\<rparr>]"

text \<open>
  A decoded \<^verbatim>\<open>flattened_lemmas.json\<close> with a noun, an adjective, a verb and an adverb,
  one with no verb, and one with two verbs in the two orders in which a \<^verbatim>\<open>range\<close> can
  iterate it.
\<close>

definition ex_lemmas :: "(gostring \<times> LemmaInput) list" where
  "ex_lemmas =
     [(str ''1'', \<lparr>HTML = bil_html, FamilyID = 1\<rparr>),
      (str ''2'', \<lparr>HTML = glad_html, FamilyID = 2\<rparr>),
      (str ''3'', \<lparr>HTML = springa_html, FamilyID = 3\<rparr>),
      (str ''4'', \<lparr>HTML = ofta_html, FamilyID = 4\<rparr>)]"

definition ex_noverb :: "(gostring \<times> LemmaInput) list" where
  "ex_noverb =
     [(str ''1'', \<lparr>HTML = bil_html, FamilyID = 1\<rparr>),
      (str ''2'', \<lparr>HTML = glad_html, FamilyID = 2\<rparr>)]"

definition ex_verbs12 :: "(gostring \<times> LemmaInput) list" where
  "ex_verbs12 =
     [(str ''1'', \<lparr>HTML = springa_html, FamilyID = 1\<rparr>),
      (str ''2'', \<lparr>HTML = hoppa_html, FamilyID = 2\<rparr>)]"

definition ex_verbs21 :: "(gostring \<times> LemmaInput) list" where
  "ex_verbs21 =
     [(str ''2'', \<lparr>HTML = hoppa_html, FamilyID = 2\<rparr>),
      (str ''1'', \<lparr>HTML = springa_html, FamilyID = 1\<rparr>)]"

text \<open>Four array elements, the second of the wrong shape.\<close>

definition ex_stream :: "element list" where
  "ex_stream =
     [Decodable \<lparr>html = str ''a''\<rparr>, Undecodable,
      Decodable \<lparr>html = str ''b''\<rparr>, Decodable \<lparr>html = str ''c''\<rparr>]"

section \<open>Facts about the text functions\<close>

lemma dropTrailing_Cons:
  "rev (dropWhile P (rev (a # xs))) =
     (if P a \<and> rev (dropWhile P (rev xs)) = [] then [] else a # rev (dropWhile P (rev xs)))"
  by (simp add: dropWhile_append)

lemma dropTrailing_Nil_iff: "rev (dropWhile P (rev xs)) = [] \<longleftrightarrow> (\<forall>x\<in>set xs. P x)"
  by simp

lemma takeWhile_dropTrailing:
  "takeWhile (\<lambda>x. \<not> P x) (rev (dropWhile P (rev xs))) = takeWhile (\<lambda>x. \<not> P x) xs"
proof (induction xs)
  case Nil
  show ?case by simp
next
  case (Cons a xs)
  show ?case
    unfolding dropTrailing_Cons using Cons.IH by simp
qed

lemma dropWhile_dropTrailing:
  "dropWhile P (rev (dropWhile P (rev (dropWhile P xs)))) = rev (dropWhile P (rev (dropWhile P xs)))"
proof (cases "dropWhile P xs")
  case Nil
  show ?thesis unfolding Nil by simp
next
  case (Cons c cs)
  then have "\<not> P c" by (metis hd_dropWhile list.sel(1) list.distinct(1))
  then show ?thesis unfolding Cons dropTrailing_Cons by simp
qed

lemma Fields_first: "(if length (Fields s) > 0 then Fields s ! 0 else []) = firstToken s"
proof (cases "dropWhile isSpace s")
  case Nil
  have "Fields s = []" unfolding Fields.simps [of s] Nil by simp
  then show ?thesis unfolding firstToken_def Nil by simp
next
  case (Cons c cs)
  then have c: "\<not> isSpace c" by (metis hd_dropWhile list.sel(1) list.distinct(1))
  have "Fields s = (c # takeWhile (\<lambda>r. \<not> isSpace r) cs)
                     # Fields (dropWhile (\<lambda>r. \<not> isSpace r) cs)"
    unfolding Fields.simps [of s] Cons by simp
  then show ?thesis unfolding firstToken_def Cons using c by simp
qed

lemma firstToken_TrimSpace: "firstToken (TrimSpace t) = firstToken t"
  by (simp add: firstToken_def TrimSpace_def dropWhile_dropTrailing takeWhile_dropTrailing)

lemma dropWhile_takeWhile_commute:
  "(\<And>x. P x \<Longrightarrow> Q x) \<Longrightarrow> dropWhile P (takeWhile Q xs) = takeWhile Q (dropWhile P xs)"
  by (induction xs) auto

lemma dropTrailing_takeWhile:
  assumes "\<And>x. P x \<Longrightarrow> Q x"
  shows "rev (dropWhile P (rev (takeWhile Q (rev (dropWhile P (rev xs)))))) =
         rev (dropWhile P (rev (takeWhile Q xs)))"
proof (induction xs)
  case Nil
  show ?case by simp
next
  case (Cons a xs)
  show ?case
  proof (cases "Q a")
    case False
    then have "\<not> P a" using assms by blast
    with False show ?thesis unfolding dropTrailing_Cons by simp
  next
    case True
    show ?thesis
    proof (cases "P a \<and> rev (dropWhile P (rev xs)) = []")
      case True
      then have "\<forall>x\<in>set (takeWhile Q xs). P x"
        by (auto dest: set_takeWhileD)
      with True \<open>Q a\<close> show ?thesis unfolding dropTrailing_Cons by simp
    next
      case False
      then have "rev (dropWhile P (rev (a # xs))) = a # rev (dropWhile P (rev xs))"
        unfolding dropTrailing_Cons by simp
      then show ?thesis using \<open>Q a\<close> Cons.IH
        by (simp only: takeWhile.simps dropTrailing_Cons if_True) 
    qed
  qed
qed

lemma isSpace_not_plus: "isSpace r \<Longrightarrow> r \<noteq> 43"
  by (auto simp: isSpace_def)

lemma trim_cut: "TrimSpace (takeWhile (\<lambda>r. r \<noteq> 43) (TrimSpace t)) = TrimSpace (takeWhile (\<lambda>r. r \<noteq> 43) t)"
proof -
  let ?Q = "\<lambda>r::nat. r \<noteq> 43"
  have c: "\<And>xs. dropWhile isSpace (takeWhile ?Q xs) = takeWhile ?Q (dropWhile isSpace xs)"
    by (rule dropWhile_takeWhile_commute) (rule isSpace_not_plus)
  show ?thesis
    unfolding TrimSpace_def c dropWhile_dropTrailing
    by (rule dropTrailing_takeWhile) (rule isSpace_not_plus)
qed

lemma LastIndex_tagged: "c \<notin> set L \<Longrightarrow> LastIndex (x @ c # L) c = int (length x)"
proof -
  assume a: "c \<notin> set L"
  then have "takeWhile (\<lambda>r. r \<noteq> c) (rev L @ c # rev x) = rev L"
    by (subst takeWhile_append2) auto
  then show ?thesis by (simp add: LastIndex_def)
qed

lemma bucketTagged_tagged:
  "45 \<notin> set L \<Longrightarrow>
   bucketTagged (x @ 45 # L) m = (case m L of Some vs \<Rightarrow> m(L \<mapsto> vs @ [x]) | None \<Rightarrow> m)"
proof -
  assume a: "45 \<notin> set L"
  have n: "nat (int (length x) + 1) = Suc (length x)" by simp
  show ?thesis
    unfolding bucketTagged_def LastIndex_tagged [OF a] Let_def n
    by (simp split: option.splits)
qed

lemma dom_bucketTagged: "dom (bucketTagged t m) = dom m"
  by (auto simp: bucketTagged_def Let_def split: option.splits)

lemma dom_fold_bucketTagged: "dom (fold bucketTagged ts m) = dom m"
  by (induction ts arbitrary: m) (simp_all add: dom_bucketTagged)

section \<open>Facts about the worker-pool programs\<close>

lemma worker_job_single: "\<exists>res. worker_job parse Html job = [res] \<and> rIndex res = Index job"
  by (auto simp: worker_job_def Let_def split: sum.splits)

lemma worker_job_clean_single:
  "\<exists>res. worker_job_clean parse Html job = [res] \<and> cIndex res = Index job"
  by (auto simp: worker_job_clean_def Let_def split: sum.splits)

lemma map_rIndex_worker: "map rIndex (worker parse Html jobs) = map Index jobs"
proof (induction jobs)
  case Nil
  show ?case by (simp add: worker_def)
next
  case (Cons job jobs)
  obtain res where "worker_job parse Html job = [res]" "rIndex res = Index job"
    using worker_job_single by blast
  then show ?case using Cons by (simp add: worker_def)
qed

lemma map_cIndex_worker: "map cIndex (worker_clean parse Html jobs) = map Index jobs"
proof (induction jobs)
  case Nil
  show ?case by (simp add: worker_clean_def)
next
  case (Cons job jobs)
  obtain res where "worker_job_clean parse Html job = [res]" "cIndex res = Index job"
    using worker_job_clean_single by blast
  then show ?case using Cons by (simp add: worker_clean_def)
qed

lemma dispatch_clean_Nil: "dispatch_clean i [] = []"
  by (simp add: dispatch_clean.simps More_def)

lemma dispatch_clean_Decodable:
  "dispatch_clean i (Decodable e # d) = \<lparr>Index = i, Data = e\<rparr> # dispatch_clean (i + 1) d"
  by (subst dispatch_clean.simps) (simp add: More_def)

lemma dispatch_clean_Undecodable:
  "dispatch_clean i (Undecodable # d) = dispatch_clean (i + 1) d"
  by (subst dispatch_clean.simps) (simp add: More_def)

lemma dispatch_flat_Nil: "dispatch_flat i [] = []"
  by (simp add: dispatch_flat.simps More_def)

lemma dispatch_flat_Decodable:
  "dispatch_flat i (Decodable e # d) = \<lparr>Index = i, Data = e\<rparr> # dispatch_flat (i + 1) d"
  by (subst dispatch_flat.simps) (simp add: More_def)

lemma dispatch_flat_Undecodable:
  "dispatch_flat i (Undecodable # d) = dispatch_flat (i + 1) (DecodeRaw d)"
  by (subst dispatch_flat.simps) (simp add: More_def)

lemma dispatch_clean_lower: "j \<in> set (dispatch_clean i d) \<Longrightarrow> i \<le> Index j"
proof (induction d arbitrary: i)
  case Nil
  then show ?case by (simp add: dispatch_clean_Nil)
next
  case (Cons el d)
  then show ?case
    by (cases el) (force simp: dispatch_clean_Decodable dispatch_clean_Undecodable)+
qed

lemma dispatch_clean_increasing: "sorted_wrt (<) (map Index (dispatch_clean i d))"
proof (induction d arbitrary: i)
  case Nil
  show ?case by (simp add: dispatch_clean_Nil)
next
  case (Cons el d)
  show ?case
  proof (cases el)
    case (Decodable e)
    have "\<forall>j\<in>set (dispatch_clean (i + 1) d). i < Index j"
      using dispatch_clean_lower [of _ "i + 1" d] by force
    then show ?thesis using Cons [of "i + 1"] Decodable
      by (simp add: dispatch_clean_Decodable)
  next
    case Undecodable
    then show ?thesis using Cons [of "i + 1"] by (simp add: dispatch_clean_Undecodable)
  qed
qed

lemma dispatch_flat_lower: "j \<in> set (dispatch_flat i d) \<Longrightarrow> i \<le> Index j"
proof (induction i d rule: dispatch_flat.induct)
  case (1 index d)
  show ?case
  proof (cases d rule: Decode.cases)
    case 1
    then show ?thesis using "1.prems" by (simp add: dispatch_flat_Nil)
  next
    case (2 entry d')
    have "More d" "(Inr entry, d') = Decode d" using 2 by (simp_all add: More_def)
    from "1.IH"(2) [OF this refl] "1.prems" 2 show ?thesis
      by (force simp: dispatch_flat_Decodable)
  next
    case (3 d')
    have "More d" "(Inl UnmarshalTypeError, d') = Decode d" using 3 by (simp_all add: More_def)
    from "1.IH"(1) [OF this refl] "1.prems" 3 show ?thesis
      by (force simp: dispatch_flat_Undecodable)
  qed
qed

lemma dispatch_flat_increasing: "sorted_wrt (<) (map Index (dispatch_flat i d))"
proof (induction i d rule: dispatch_flat.induct)
  case (1 index d)
  show ?case
  proof (cases d rule: Decode.cases)
    case 1
    then show ?thesis by (simp add: dispatch_flat_Nil)
  next
    case (2 entry d')
    have "More d" "(Inr entry, d') = Decode d" using 2 by (simp_all add: More_def)
    from "1.IH"(2) [OF this refl]
    have "sorted_wrt (<) (map Index (dispatch_flat (index + 1) d'))" .
    moreover have "\<forall>j\<in>set (dispatch_flat (index + 1) d'). index < Index j"
      using dispatch_flat_lower [of _ "index + 1" d'] by force
    ultimately show ?thesis using 2 by (simp add: dispatch_flat_Decodable)
  next
    case (3 d')
    have "More d" "(Inl UnmarshalTypeError, d') = Decode d" using 3 by (simp_all add: More_def)
    from "1.IH"(1) [OF this refl] 3 show ?thesis
      by (simp add: dispatch_flat_Undecodable)
  qed
qed

lemma fold_skip_append:
  "fold (\<lambda>x acc. if Q x then acc else acc @ [x]) xs acc0 = acc0 @ filter (\<lambda>x. \<not> Q x) xs"
  by (induction xs arbitrary: acc0) simp_all

lemma collect_filter: "collect rs = filter (\<lambda>res. rError res = None) rs"
  unfolding collect_def fold_skip_append by simp

lemma collect_clean_filter: "collect_clean rs = filter (\<lambda>res. cError res = None) rs"
  unfolding collect_clean_def fold_skip_append by simp

lemma sorted_result_unique:
  assumes "mset ys = mset xs" and "distinct (map f xs)" and "sorted (map f ys)"
  shows "sort_key f xs = ys"
proof (rule sort_key_inj_key_eq)
  show "mset xs = mset ys" using assms(1) by simp
  show "inj_on f (set xs)" using assms(2) by (simp add: distinct_map)
  show "sorted (map f ys)" by (rule assms(3))
qed

lemma sort_filter_arrived:
  fixes f :: "'a \<Rightarrow> int"
  assumes "sorted_wrt (<) (map f inorder)" and "mset arrived = mset inorder"
  shows "sort_key f (filter P arrived) = filter P inorder"
proof (rule sorted_result_unique)
  show "mset (filter P inorder) = mset (filter P arrived)"
    using assms(2) by (simp add: mset_filter)
  have d: "distinct (map f inorder)"
    using assms(1) by (simp add: strict_sorted_iff)
  have "distinct (map f arrived)"
    using d assms(2) by (metis mset_map mset_eq_imp_distinct_iff)
  then show "distinct (map f (filter P arrived))"
    by (simp add: distinct_map_filter)
  have "sorted (map f inorder)" using assms(1) by (simp add: strict_sorted_iff)
  then show "sorted (map f (filter P inorder))"
    by (simp add: sorted_filter)
qed

lemma fold_put:
  "fold (\<lambda>x (m, k). (m(k \<mapsto> g x), k + 1)) xs (m, k) =
     ((\<lambda>j. if k \<le> j \<and> j < k + int (length xs) then Some (g (xs ! nat (j - k))) else m j),
      k + int (length xs))"
proof (induction xs arbitrary: m k)
  case Nil
  show ?case by (auto simp: fun_eq_iff)
next
  case (Cons x xs)
  have "(\<lambda>j. if k + 1 \<le> j \<and> j < k + 1 + int (length xs)
             then Some (g (xs ! nat (j - (k + 1)))) else (m(k \<mapsto> g x)) j) =
        (\<lambda>j. if k \<le> j \<and> j < k + int (length (x # xs))
             then Some (g ((x # xs) ! nat (j - k))) else m j)"
  proof
    fix j
    show "(if k + 1 \<le> j \<and> j < k + 1 + int (length xs)
           then Some (g (xs ! nat (j - (k + 1)))) else (m(k \<mapsto> g x)) j) =
          (if k \<le> j \<and> j < k + int (length (x # xs))
           then Some (g ((x # xs) ! nat (j - k))) else m j)"
    proof (cases "j = k")
      case True
      then show ?thesis by simp
    next
      case False
      have "k + 1 \<le> j \<Longrightarrow> nat (j - k) = Suc (nat (j - (k + 1)))" by simp
      then show ?thesis using False by auto
    qed
  qed
  then show ?case using Cons [of "m(k \<mapsto> g x)" "k + 1"] by simp
qed

lemma emitLemmas_put:
  "emitLemmas familyID lemmas st =
     fold (\<lambda>e (m, k). (m(k \<mapsto> e), k + 1))
       (map (\<lambda>h. \<lparr>HTML = h, FamilyID = familyID\<rparr>) lemmas) st"
  by (simp add: emitLemmas_def fold_map comp_def)

lemma assemble_fold_flatten:
  "fold (\<lambda>res. emitLemmas (rIndex res + 1) (LemmaHTMLs res)) collected st =
     fold (\<lambda>e (m, k). (m(k \<mapsto> e), k + 1)) (flatten collected) st"
  by (induction collected arbitrary: st) (simp_all add: flatten_def emitLemmas_put)

lemma assemble_flatten:
  "assemble collected =
     ((\<lambda>j. if 1 \<le> j \<and> j \<le> int (length (flatten collected))
           then Some (flatten collected ! nat (j - 1)) else None),
      1 + int (length (flatten collected)))"
  unfolding assemble_def assemble_fold_flatten
  using fold_put [of "\<lambda>e. e" "flatten collected" Map.empty 1] by (auto simp: fun_eq_iff)

lemma assemble_clean_map:
  "assemble_clean collected =
     ((\<lambda>j. if 1 \<le> j \<and> j \<le> int (length collected)
           then Some (CleanedHTML (collected ! nat (j - 1))) else None),
      1 + int (length collected))"
  unfolding assemble_clean_def
  using fold_put [of CleanedHTML collected Map.empty 1] by (auto simp: fun_eq_iff)

lemma sorted_FamilyID_flatten:
  "sorted (map rIndex collected) \<Longrightarrow> sorted (map FamilyID (flatten collected))"
proof (induction collected)
  case Nil
  show ?case by (simp add: flatten_def)
next
  case (Cons res collected)
  then have "sorted (map FamilyID (flatten collected))" by simp
  moreover have "\<forall>e\<in>set (flatten collected). rIndex res + 1 \<le> FamilyID e"
    using Cons.prems by (auto simp: flatten_def)
  ultimately show ?case
    by (auto simp: flatten_def sorted_append comp_def map_replicate_const)
qed

lemma dispatch_clean_aligned:
  "k < length d \<Longrightarrow> d ! k = Decodable e \<Longrightarrow>
   \<lparr>Index = i + int k, Data = e\<rparr> \<in> set (dispatch_clean i d)"
proof (induction d arbitrary: i k)
  case Nil
  then show ?case by simp
next
  case (Cons el d)
  show ?case
  proof (cases k)
    case 0
    then show ?thesis using Cons.prems by (simp add: dispatch_clean_Decodable)
  next
    case (Suc k')
    then have "\<lparr>Index = (i + 1) + int k', Data = e\<rparr> \<in> set (dispatch_clean (i + 1) d)"
      using Cons.prems by (intro Cons.IH) simp_all
    moreover have "(i + 1) + int k' = i + int k" using Suc by simp
    ultimately show ?thesis
      by (cases el) (simp_all add: dispatch_clean_Decodable dispatch_clean_Undecodable)
  qed
qed

text \<open>
  C8: for every job, the worker's loop body sends exactly one result, carrying the
  job's index, in both programs; a worker that handles a sequence of jobs therefore
  sends as many results as it received jobs.
\<close>

theorem worker_emits_exactly_one:
  "(\<exists>res. worker_job parse Html job = [res] \<and> rIndex res = Index job) \<and>
   (\<exists>res. worker_job_clean parse Html job = [res] \<and> cIndex res = Index job) \<and>
   map rIndex (worker parse Html jobs) = map Index jobs \<and>
   map cIndex (worker_clean parse Html jobs) = map Index jobs"
  using worker_job_single worker_job_clean_single map_rIndex_worker map_cIndex_worker
  by blast

text \<open>
  C7: when the document parses and \<^verbatim>\<open>div.article\<close> matches nothing in it, the worker
  sends one result without an error and with an empty payload, in both programs.
\<close>

theorem no_article_is_success:
  assumes "parse (html (Data job)) = Inr doc"
    and "docFind (ByTagClass (str ''div'') (str ''article'')) doc = []"
  shows "worker_job parse Html job = [\<lparr>rIndex = Index job, LemmaHTMLs = [], rError = None\<rparr>] \<and>
         worker_job_clean parse Html job =
           [\<lparr>cIndex = Index job, CleanedHTML = [], cError = None\<rparr>]"
  using assms by (simp add: worker_job_def worker_job_clean_def)

lemma ex_plain_no_article:
  "docFind (ByTagClass (str ''div'') (str ''article'')) ex_plain = []"
  by (simp add: docFind_def ex_plain_def page_def)

theorem no_article_is_success_witness:
  "ex_parse (html (Data \<lparr>Index = 7, Data = \<lparr>html = str ''<p>hej</p>''\<rparr>\<rparr>)) = Inr ex_plain \<and>
   docFind (ByTagClass (str ''div'') (str ''article'')) ex_plain = [] \<and>
   worker_job ex_parse ex_Html \<lparr>Index = 7, Data = \<lparr>html = str ''<p>hej</p>''\<rparr>\<rparr> =
     [\<lparr>rIndex = 7, LemmaHTMLs = [], rError = None\<rparr>] \<and>
   worker_job_clean ex_parse ex_Html \<lparr>Index = 7, Data = \<lparr>html = str ''<p>hej</p>''\<rparr>\<rparr> =
     [\<lparr>cIndex = 7, CleanedHTML = [], cError = None\<rparr>]"
proof -
  have p: "ex_parse (html (Data \<lparr>Index = 7, Data = \<lparr>html = str ''<p>hej</p>''\<rparr>\<rparr>)) = Inr ex_plain"
    by (simp add: ex_parse_def)
  show ?thesis
    using no_article_is_success
      [where parse = ex_parse and Html = ex_Html and doc = ex_plain
         and job = "\<lparr>Index = 7, Data = \<lparr>html = str ''<p>hej</p>''\<rparr>\<rparr>",
       OF p ex_plain_no_article]
      p ex_plain_no_article
    by simp
qed

text \<open>
  C3, at the stream \<open>ex_stream\<close> whose second element is of the wrong shape: the
  flattening program never dispatches the third element and gives the fourth the index
  2; \<^verbatim>\<open>clean_saol_json.go\<close> dispatches both, under their positions 2 and 3.
\<close>

theorem dispatch_flat_misaligned:
  "dispatch_flat 0 ex_stream =
     [\<lparr>Index = 0, Data = \<lparr>html = str ''a''\<rparr>\<rparr>, \<lparr>Index = 2, Data = \<lparr>html = str ''c''\<rparr>\<rparr>] \<and>
   dispatch_clean 0 ex_stream =
     [\<lparr>Index = 0, Data = \<lparr>html = str ''a''\<rparr>\<rparr>, \<lparr>Index = 2, Data = \<lparr>html = str ''b''\<rparr>\<rparr>,
      \<lparr>Index = 3, Data = \<lparr>html = str ''c''\<rparr>\<rparr>]"
  by (simp add: ex_stream_def dispatch_flat_Nil dispatch_flat_Decodable
      dispatch_flat_Undecodable dispatch_clean_Nil dispatch_clean_Decodable
      dispatch_clean_Undecodable)

text \<open>
  The pool: each of the workers receives a share of the dispatched jobs, and the shares
  together are the dispatched jobs. Whatever the shares, the results sent are, up to
  order, those of one worker handling every job; the properties below are stated for
  any sequence \<open>arrived\<close> that is such a rearrangement.
\<close>

lemma mset_worker: "mset (worker parse Html jobs) = (\<Sum>job\<in>#mset jobs. mset (worker_job parse Html job))"
  unfolding worker_def by (induction jobs) simp_all

lemma mset_worker_clean:
  "mset (worker_clean parse Html jobs) = (\<Sum>job\<in>#mset jobs. mset (worker_job_clean parse Html job))"
  unfolding worker_clean_def by (induction jobs) simp_all

lemma worker_pool:
  assumes "mset (concat shares) = mset jobs"
  shows "mset (concat (map (worker parse Html) shares)) = mset (worker parse Html jobs)"
proof -
  have "mset (concat (map (worker parse Html) shares)) = mset (worker parse Html (concat shares))"
    by (induction shares) (simp_all add: worker_def)
  then show ?thesis using assms by (simp add: mset_worker)
qed

lemma worker_clean_pool:
  assumes "mset (concat shares) = mset jobs"
  shows "mset (concat (map (worker_clean parse Html) shares)) = mset (worker_clean parse Html jobs)"
proof -
  have "mset (concat (map (worker_clean parse Html) shares)) =
        mset (worker_clean parse Html (concat shares))"
    by (induction shares) (simp_all add: worker_clean_def)
  then show ?thesis using assms by (simp add: mset_worker_clean)
qed

lemma finalOutput_sequential:
  assumes "mset arrived = mset (worker parse Html (dispatch_flat 0 input))"
  shows "sortByIndex (collect arrived) = collect (worker parse Html (dispatch_flat 0 input))"
  unfolding sortByIndex_def collect_filter
  using assms by (intro sort_filter_arrived) (simp_all add: map_rIndex_worker dispatch_flat_increasing)

lemma finalOutput_clean_sequential:
  assumes "mset arrived = mset (worker_clean parse Html (dispatch_clean 0 input))"
  shows "sortByIndex_clean (collect_clean arrived) =
         collect_clean (worker_clean parse Html (dispatch_clean 0 input))"
  unfolding sortByIndex_clean_def collect_clean_filter
  using assms by (intro sort_filter_arrived) (simp_all add: map_cIndex_worker dispatch_clean_increasing)

lemma sorted_collect_worker:
  "sorted (map rIndex (collect (worker parse Html (dispatch_flat i input))))"
proof -
  have "sorted (map rIndex (worker parse Html (dispatch_flat i input)))"
    using dispatch_flat_increasing [of i input]
    by (simp add: map_rIndex_worker strict_sorted_iff)
  then show ?thesis unfolding collect_filter by (simp add: sorted_filter)
qed

lemma dom_keys:
  "dom (\<lambda>j::int. if 1 \<le> j \<and> j \<le> n then Some (f j) else None) = {1..n}"
  by (auto simp: dom_def)

text \<open>
  C1, as amended: whatever the order in which the results reach the collector, the
  flattened output has the keys \<open>1..n\<close>, its \<open>FamilyID\<close> never decreases as the key
  grows, and it is the output of handling the documents one after the other in input
  order; the output of \<^verbatim>\<open>clean_saol_json.go\<close>, which has no \<open>FamilyID\<close>, has the keys
  \<open>1..n\<close> and is likewise the output of handling the documents in input order.
\<close>

theorem finalOutput_in_input_order:
  assumes "mset arrived = mset (worker parse Html (dispatch_flat 0 input))"
    and "mset arrived_clean = mset (worker_clean parse Html (dispatch_clean 0 input))"
  shows "(\<exists>n. dom (finalOutput arrived) = {1..n} \<and>
              (\<forall>i j. 1 \<le> i \<and> i \<le> j \<and> j \<le> n \<longrightarrow>
                 FamilyID (the (finalOutput arrived i)) \<le> FamilyID (the (finalOutput arrived j)))) \<and>
         finalOutput arrived = fst (assemble (collect (worker parse Html (dispatch_flat 0 input)))) \<and>
         (\<exists>n. dom (finalOutput_clean arrived_clean) = {1..n}) \<and>
         finalOutput_clean arrived_clean =
           fst (assemble_clean (collect_clean (worker_clean parse Html (dispatch_clean 0 input))))"
proof -
  let ?seq = "collect (worker parse Html (dispatch_flat 0 input))"
  let ?flat = "flatten ?seq"
  have out: "finalOutput arrived = fst (assemble ?seq)"
    unfolding finalOutput_def finalOutput_sequential [OF assms(1)] ..
  have out_c: "finalOutput_clean arrived_clean =
      fst (assemble_clean (collect_clean (worker_clean parse Html (dispatch_clean 0 input))))"
    unfolding finalOutput_clean_def finalOutput_clean_sequential [OF assms(2)] ..
  have m: "finalOutput arrived =
      (\<lambda>j. if 1 \<le> j \<and> j \<le> int (length ?flat) then Some (?flat ! nat (j - 1)) else None)"
    unfolding out assemble_flatten by simp
  have d: "dom (finalOutput arrived) = {1..int (length ?flat)}"
    unfolding m by (rule dom_keys)
  have s: "sorted (map FamilyID ?flat)"
    by (rule sorted_FamilyID_flatten) (rule sorted_collect_worker)
  have mono: "FamilyID (the (finalOutput arrived i)) \<le> FamilyID (the (finalOutput arrived j))"
    if "1 \<le> i \<and> i \<le> j \<and> j \<le> int (length ?flat)" for i j
  proof -
    have "nat (i - 1) \<le> nat (j - 1)" "nat (j - 1) < length (map FamilyID ?flat)"
      using that by auto
    then have "map FamilyID ?flat ! nat (i - 1) \<le> map FamilyID ?flat ! nat (j - 1)"
      using s by (rule sorted_nth_mono [rotated])
    moreover have "nat (i - 1) < length ?flat" "nat (j - 1) < length ?flat"
      using that by auto
    ultimately show ?thesis unfolding m using that by simp
  qed
  have d_c: "dom (finalOutput_clean arrived_clean) =
      {1..int (length (collect_clean (worker_clean parse Html (dispatch_clean 0 input))))}"
    unfolding out_c assemble_clean_map fst_conv by (rule dom_keys)
  show ?thesis using d mono out d_c out_c by blast
qed

lemma ex_worker_results:
  "worker ex_parse ex_Html (dispatch_flat 0 ex_input) =
     [\<lparr>rIndex = 0, LemmaHTMLs = [], rError = None\<rparr>,
      \<lparr>rIndex = 1, LemmaHTMLs = [str ''a'', str ''b''], rError = None\<rparr>]"
  by (simp add: ex_input_def dispatch_flat_Nil dispatch_flat_Decodable worker_def
      worker_job_def ex_parse_def ex_plain_def ex_article_def page_def docFind_def Find_def
      First_def ex_Html_def)

theorem finalOutput_in_input_order_witness:
  "mset (rev (worker ex_parse ex_Html (dispatch_flat 0 ex_input))) =
     mset (worker ex_parse ex_Html (dispatch_flat 0 ex_input)) \<and>
   mset (rev (worker_clean ex_parse ex_Html (dispatch_clean 0 ex_input))) =
     mset (worker_clean ex_parse ex_Html (dispatch_clean 0 ex_input)) \<and>
   finalOutput (rev (worker ex_parse ex_Html (dispatch_flat 0 ex_input))) =
     fst (assemble (collect (worker ex_parse ex_Html (dispatch_flat 0 ex_input)))) \<and>
   finalOutput_clean (rev (worker_clean ex_parse ex_Html (dispatch_clean 0 ex_input))) =
     fst (assemble_clean (collect_clean (worker_clean ex_parse ex_Html (dispatch_clean 0 ex_input)))) \<and>
   rev (worker ex_parse ex_Html (dispatch_flat 0 ex_input)) \<noteq>
     worker ex_parse ex_Html (dispatch_flat 0 ex_input)"
proof -
  have a: "mset (rev (worker ex_parse ex_Html (dispatch_flat 0 ex_input))) =
           mset (worker ex_parse ex_Html (dispatch_flat 0 ex_input))"
    by simp
  have b: "mset (rev (worker_clean ex_parse ex_Html (dispatch_clean 0 ex_input))) =
           mset (worker_clean ex_parse ex_Html (dispatch_clean 0 ex_input))"
    by simp
  have c: "rev (worker ex_parse ex_Html (dispatch_flat 0 ex_input)) \<noteq>
           worker ex_parse ex_Html (dispatch_flat 0 ex_input)"
    unfolding ex_worker_results by simp
  show ?thesis using finalOutput_in_input_order [OF a b] a b c by blast
qed

text \<open>
  C1 as stated fails where a document has two lemmas: both entries carry the
  document's \<open>FamilyID\<close>, so it does not grow from key 1 to key 2.
\<close>

theorem finalOutput_strict_counterexample:
  "finalOutput (worker ex_parse ex_Html (dispatch_flat 0 ex_input)) 1 =
     Some \<lparr>HTML = str ''a'', FamilyID = 2\<rparr> \<and>
   finalOutput (worker ex_parse ex_Html (dispatch_flat 0 ex_input)) 2 =
     Some \<lparr>HTML = str ''b'', FamilyID = 2\<rparr> \<and>
   \<not> FamilyID (the (finalOutput (worker ex_parse ex_Html (dispatch_flat 0 ex_input)) 1))
       < FamilyID (the (finalOutput (worker ex_parse ex_Html (dispatch_flat 0 ex_input)) 2))"
  unfolding finalOutput_def ex_worker_results
  by (simp add: collect_def sortByIndex_def assemble_def emitLemmas_def)

section \<open>Facts about the extraction passes\<close>

lemma set_TrimSpace: "set (TrimSpace t) \<subseteq> set t"
  unfolding TrimSpace_def by (auto dest!: set_dropWhileD)

lemma parseSubstantiv_row_header:
  "isHeader s \<Longrightarrow> parseSubstantiv_row s (ctx, acc) = (headerLabel s, acc)"
  by (simp add: parseSubstantiv_row_def isHeader_def)

lemma parseVerbForms_row_header:
  "isHeader s \<Longrightarrow> parseVerbForms_row s (ctx, acc) = (headerLabel s, acc)"
  by (simp add: parseVerbForms_row_def isHeader_def)

lemma parseAdjektiv_row_header:
  "isHeader s \<Longrightarrow> parseAdjektiv_row s (ctx, acc) = (headerLabel s, acc)"
  by (simp add: parseAdjektiv_row_def isHeader_def)

lemma parseSubstantiv_row_skip:
  "\<not> isHeader s \<Longrightarrow> length (valueCells s) \<noteq> 2 \<Longrightarrow> parseSubstantiv_row s st = st"
  by (cases st) (simp add: parseSubstantiv_row_def isHeader_def)

lemma parseAdjektiv_row_skip:
  "\<not> isHeader s \<Longrightarrow> length (valueCells s) \<noteq> 1 \<Longrightarrow> parseAdjektiv_row s st = st"
  by (cases st) (simp add: parseAdjektiv_row_def isHeader_def)

lemma parseVerbForms_row_skip:
  "\<not> isHeader s \<Longrightarrow> valueCells s = [] \<Longrightarrow> parseVerbForms_row s st = st"
  by (cases st) (simp add: parseVerbForms_row_def isHeader_def)

lemma parseSubstantiv_row_value:
  assumes "\<not> isHeader s" and "length (valueCells s) = 2"
  shows "parseSubstantiv_row s (ctx, acc) =
           (ctx, acc @ [TrimSpace (cellText s 0) @ dash @ firstToken (cellText s 1) @ dash @ ctx])"
proof -
  have f: "(if Fields (TrimSpace t) \<noteq> [] then Fields (TrimSpace t) ! 0 else []) = firstToken t"
    for t
    using Fields_first [of "TrimSpace t"] by (simp add: firstToken_TrimSpace)
  show ?thesis
    using assms
    by (simp add: parseSubstantiv_row_def isHeader_def Let_def cellText_def f
        split del: if_split)
qed

lemma parseVerbForms_row_value:
  assumes "\<not> isHeader s" and "valueCells s \<noteq> []"
  shows "parseVerbForms_row s (ctx, acc) = (ctx, acc @ [verbValue s @ dash @ ctx])"
  using assms
  by (simp add: parseVerbForms_row_def isHeader_def Let_def cellText_def verbValue_def)

lemma parseAdjektiv_row_value:
  assumes "\<not> isHeader s" and "length (valueCells s) = 1"
  shows "parseAdjektiv_row s (ctx, acc) =
           (ctx, acc @ [TrimSpace (takeWhile (\<lambda>r. r \<noteq> plus_rune) (TrimSpace (cellText s 0)))
                         @ dash @ ctx])"
proof -
  have "SplitN2 t plus_rune ! 0 = takeWhile (\<lambda>r. r \<noteq> plus_rune) t" for t
    by (auto simp: SplitN2_def intro: sym)
  then show ?thesis
    using assms by (simp add: parseAdjektiv_row_def isHeader_def Let_def cellText_def)
qed

text \<open>Whole passes: one record for each value row of the right arity, and no other.\<close>

lemma fold_substantiv_count:
  "length (snd (fold parseSubstantiv_row rows (ctx, acc))) =
     length acc + length (filter (\<lambda>s. \<not> isHeader s \<and> length (valueCells s) = 2) rows)"
proof (induction rows arbitrary: ctx acc)
  case Nil
  show ?case by simp
next
  case (Cons s rows)
  show ?case
  proof (cases "isHeader s")
    case True
    then show ?thesis using Cons [of "headerLabel s" acc]
      by (simp add: parseSubstantiv_row_header)
  next
    case False
    then show ?thesis
      using Cons [of ctx acc] Cons [of ctx "acc @ [TrimSpace (cellText s 0) @ dash @ firstToken (cellText s 1) @ dash @ ctx]"]
      by (cases "length (valueCells s) = 2")
        (simp_all add: parseSubstantiv_row_value parseSubstantiv_row_skip)
  qed
qed

lemma fold_adjektiv_count:
  "length (snd (fold parseAdjektiv_row rows (ctx, acc))) =
     length acc + length (filter (\<lambda>s. \<not> isHeader s \<and> length (valueCells s) = 1) rows)"
proof (induction rows arbitrary: ctx acc)
  case Nil
  show ?case by simp
next
  case (Cons s rows)
  show ?case
  proof (cases "isHeader s")
    case True
    then show ?thesis using Cons [of "headerLabel s" acc]
      by (simp add: parseAdjektiv_row_header)
  next
    case False
    then show ?thesis
      using Cons [of ctx acc]
        Cons [of ctx "acc @ [TrimSpace (takeWhile (\<lambda>r. r \<noteq> plus_rune) (TrimSpace (cellText s 0))) @ dash @ ctx]"]
      by (cases "length (valueCells s) = 1")
        (simp_all add: parseAdjektiv_row_value parseAdjektiv_row_skip)
  qed
qed

lemma fold_verb_count:
  "length (snd (fold parseVerbForms_row rows (ctx, acc))) =
     length acc + length (filter (\<lambda>s. \<not> isHeader s \<and> valueCells s \<noteq> []) rows)"
proof (induction rows arbitrary: ctx acc)
  case Nil
  show ?case by simp
next
  case (Cons s rows)
  show ?case
  proof (cases "isHeader s")
    case True
    then show ?thesis using Cons [of "headerLabel s" acc]
      by (simp add: parseVerbForms_row_header)
  next
    case False
    then show ?thesis
      using Cons [of ctx acc] Cons [of ctx "acc @ [verbValue s @ dash @ ctx]"]
      by (cases "valueCells s = []")
        (simp_all add: parseVerbForms_row_value parseVerbForms_row_skip)
  qed
qed

text \<open>
  C4, as amended: a row that is not a header row yields no record and leaves the state
  of the pass as it was when it does not hold exactly 2 cells in a noun pass, exactly 1
  cell in an adjective pass, or any cell at all in a verb pass; a verb row with at least
  one cell yields one record, made of the text of its first cell, the text of its second
  cell when it has one that is not blank, and the current label. Over a whole document,
  each pass returns exactly one record per value row of that arity.
\<close>

theorem row_arity:
  assumes "\<not> isHeader s"
  shows "(length (valueCells s) \<noteq> 2 \<longrightarrow> parseSubstantiv_row s st = st) \<and>
         (length (valueCells s) \<noteq> 1 \<longrightarrow> parseAdjektiv_row s st = st) \<and>
         (length (valueCells s) = 0 \<longrightarrow> parseVerbForms_row s st = st) \<and>
         (length (valueCells s) \<noteq> 0 \<longrightarrow>
            length (snd (parseVerbForms_row s st)) = Suc (length (snd st))) \<and>
         (length (valueCells s) \<noteq> 0 \<longrightarrow>
            parseVerbForms_row s st = (fst st, snd st @ [verbValue s @ dash @ fst st])) \<and>
         length (parseSubstantiv doc) =
           length (filter (\<lambda>s. \<not> isHeader s \<and> length (valueCells s) = 2) (tableRows doc)) \<and>
         length (parseAdjektiv doc) =
           length (filter (\<lambda>s. \<not> isHeader s \<and> length (valueCells s) = 1) (tableRows doc)) \<and>
         length (parseVerbForms doc) =
           length (filter (\<lambda>s. \<not> isHeader s \<and> valueCells s \<noteq> []) (tableRows doc))"
proof -
  have e: "length (valueCells s) \<noteq> 0 \<longrightarrow>
          parseVerbForms_row s st = (fst st, snd st @ [verbValue s @ dash @ fst st])"
    using assms by (cases st) (simp add: parseVerbForms_row_value)
  have l: "length (valueCells s) \<noteq> 0 \<longrightarrow>
          length (snd (parseVerbForms_row s st)) = Suc (length (snd st))"
    using assms by (cases st) (simp add: parseVerbForms_row_value)
  have n: "length (valueCells s) \<noteq> 2 \<longrightarrow> parseSubstantiv_row s st = st"
    using assms parseSubstantiv_row_skip [of s st] by simp
  have a: "length (valueCells s) \<noteq> 1 \<longrightarrow> parseAdjektiv_row s st = st"
    using assms parseAdjektiv_row_skip [of s st] by simp
  have v: "length (valueCells s) = 0 \<longrightarrow> parseVerbForms_row s st = st"
    using assms parseVerbForms_row_skip [of s st] by simp
  have c: "length (parseSubstantiv doc) =
           length (filter (\<lambda>s. \<not> isHeader s \<and> length (valueCells s) = 2) (tableRows doc))"
    "length (parseAdjektiv doc) =
           length (filter (\<lambda>s. \<not> isHeader s \<and> length (valueCells s) = 1) (tableRows doc))"
    "length (parseVerbForms doc) =
           length (filter (\<lambda>s. \<not> isHeader s \<and> valueCells s \<noteq> []) (tableRows doc))"
    by (simp_all add: parseSubstantiv_def parseAdjektiv_def parseVerbForms_def
        fold_substantiv_count fold_adjektiv_count fold_verb_count)
  show ?thesis
    using n a v l e c by blast
qed

lemmas example_defs = page_def lemmaPage_def headerRow_def valueRow_def tableRows_def
  docFindBelow_def docFind_def Find_def headerCells_def valueCells_def headerLabel_def
  Text_def Eq_def First_def isHeader_def cellText_def TrimSpace_def isSpace_def

theorem row_arity_witness:
  "\<not> isHeader (valueRow [''bilen'']) \<and>
   parseSubstantiv_row (valueRow [''bilen'']) (str ''Singular'', []) = (str ''Singular'', []) \<and>
   length (snd (parseVerbForms_row (valueRow [''bilen'']) (str ''Singular'', []))) = 1 \<and>
   parseVerbForms_row (valueRow [''bilen'']) (str ''Singular'', []) =
     (str ''Singular'', [str ''bilen-Singular'']) \<and>
   parseAdjektiv_row (valueRow [''glatt'', ''neutrum'']) (str ''Positiv'', []) = (str ''Positiv'', []) \<and>
   parseVerbForms_row (valueRow []) (str ''Finita former'', []) = (str ''Finita former'', []) \<and>
   length (parseSubstantiv ex_bil) = 1 \<and> length (parseAdjektiv ex_glad) = 2 \<and>
   length (parseVerbForms ex_onecell) = 1"
proof -
  have h1: "\<not> isHeader (valueRow [''bilen''])" by (simp add: example_defs)
  have h2: "\<not> isHeader (valueRow [''glatt'', ''neutrum''])" by (simp add: example_defs)
  have h3: "\<not> isHeader (valueRow [])" by (simp add: example_defs)
  have c1: "length (valueCells (valueRow [''bilen''])) = 1" by (simp add: example_defs)
  have c2: "length (valueCells (valueRow [''glatt'', ''neutrum''])) = 2" by (simp add: example_defs)
  have c3: "length (valueCells (valueRow [])) = 0" by (simp add: example_defs)
  have vv: "verbValue (valueRow [''bilen'']) = str ''bilen''"
    by (simp add: verbValue_def example_defs)
  have r1: "length (filter (\<lambda>s. \<not> isHeader s \<and> length (valueCells s) = 2) (tableRows ex_bil)) = 1"
    by (simp add: ex_bil_def example_defs)
  have r2: "length (filter (\<lambda>s. \<not> isHeader s \<and> length (valueCells s) = 1) (tableRows ex_glad)) = 2"
    by (simp add: ex_glad_def example_defs)
  have r3: "length (filter (\<lambda>s. \<not> isHeader s \<and> valueCells s \<noteq> []) (tableRows ex_onecell)) = 1"
    by (simp add: ex_onecell_def example_defs)
  show ?thesis
    using row_arity [OF h1, of "(str ''Singular'', [])" ex_bil]
      row_arity [OF h2, of "(str ''Positiv'', [])" ex_glad]
      row_arity [OF h3, of "(str ''Finita former'', [])" ex_onecell]
      h1 c1 c2 c3 r1 r2 r3
    unfolding vv by simp
qed

text \<open>
  C4 as stated fails in the verb pass: a value row with one cell, not the two of a
  verb table, yields a record.
\<close>

theorem verb_one_cell_counterexample:
  "\<not> isHeader (valueRow [''springer'']) \<and>
   length (valueCells (valueRow [''springer''])) = 1 \<and>
   parseVerbForms_row (valueRow [''springer'']) (str ''Finita former'', []) =
     (str ''Finita former'', [str ''springer-Finita former'']) \<and>
   parseVerbForms ex_onecell = [str ''springer-Finita former'']"
  by (simp add: parseVerbForms_def parseVerbForms_row_def ex_onecell_def example_defs)

lemma parseSubstantiv_two_rows:
  assumes "tableRows doc = [h, s]" and "isHeader h" and "\<not> isHeader s"
    and "length (valueCells s) = 2"
  shows "parseSubstantiv doc =
           [TrimSpace (cellText s 0) @ dash @ firstToken (cellText s 1) @ dash @ headerLabel h]"
  unfolding parseSubstantiv_def assms(1)
  by (simp add: parseSubstantiv_row_header [OF assms(2)] parseSubstantiv_row_value [OF assms(3,4)])

lemma parseVerbForms_two_rows:
  assumes "tableRows doc = [h, s]" and "isHeader h" and "\<not> isHeader s"
    and "valueCells s \<noteq> []"
  shows "parseVerbForms doc = [verbValue s @ dash @ headerLabel h]"
  unfolding parseVerbForms_def assms(1)
  by (simp add: parseVerbForms_row_header [OF assms(2)] parseVerbForms_row_value [OF assms(3,4)])

lemma parseAdjektiv_two_rows:
  assumes "tableRows doc = [h, s]" and "isHeader h" and "\<not> isHeader s"
    and "length (valueCells s) = 1"
  shows "parseAdjektiv doc =
           [TrimSpace (takeWhile (\<lambda>r. r \<noteq> plus_rune) (TrimSpace (cellText s 0)))
            @ dash @ headerLabel h]"
  unfolding parseAdjektiv_def assms(1)
  by (simp add: parseAdjektiv_row_header [OF assms(2)] parseAdjektiv_row_value [OF assms(3,4)])

text \<open>
  C6, as amended: a row with two cells that is not a header row yields one record. In a
  noun pass it is the trimmed text of the first cell, the first white-space-delimited
  token of the second cell and the current label, joined by \<open>-\<close>; in a verb pass it is
  the trimmed text of the first cell, the trimmed text of the second cell unless that is
  blank, and the current label, joined by \<open>-\<close>. A document whose table is a header row
  followed by such a row gives exactly that record under the header's label.
\<close>

theorem two_cell_row_value:
  assumes "\<not> isHeader s" and "length (valueCells s) = 2"
  shows "parseSubstantiv_row s (ctx, acc) =
           (ctx, acc @ [TrimSpace (cellText s 0) @ dash @ firstToken (cellText s 1) @ dash @ ctx]) \<and>
         parseVerbForms_row s (ctx, acc) =
           (ctx, acc @ [TrimSpace (cellText s 0)
                        @ (if TrimSpace (cellText s 1) = [] then []
                           else dash @ TrimSpace (cellText s 1))
                        @ dash @ ctx]) \<and>
         (tableRows doc = [h, s] \<and> isHeader h \<longrightarrow>
            parseSubstantiv doc =
              [TrimSpace (cellText s 0) @ dash @ firstToken (cellText s 1) @ dash
               @ headerLabel h] \<and>
            parseVerbForms doc =
              [TrimSpace (cellText s 0)
               @ (if TrimSpace (cellText s 1) = [] then []
                  else dash @ TrimSpace (cellText s 1))
               @ dash @ headerLabel h])"
proof -
  have v: "valueCells s \<noteq> []" using assms(2) by auto
  have vv: "verbValue s =
          TrimSpace (cellText s 0)
          @ (if TrimSpace (cellText s 1) = [] then [] else dash @ TrimSpace (cellText s 1))"
    using assms(2) by (simp add: verbValue_def)
  have rows: "parseSubstantiv_row s (ctx, acc) =
           (ctx, acc @ [TrimSpace (cellText s 0) @ dash @ firstToken (cellText s 1) @ dash @ ctx]) \<and>
         parseVerbForms_row s (ctx, acc) =
           (ctx, acc @ [TrimSpace (cellText s 0)
                        @ (if TrimSpace (cellText s 1) = [] then []
                           else dash @ TrimSpace (cellText s 1))
                        @ dash @ ctx])"
    using parseSubstantiv_row_value [OF assms, of ctx acc]
      parseVerbForms_row_value [OF assms(1) v, of ctx acc] vv
    by simp
  have pass: "parseSubstantiv doc =
              [TrimSpace (cellText s 0) @ dash @ firstToken (cellText s 1) @ dash
               @ headerLabel h] \<and>
            parseVerbForms doc =
              [TrimSpace (cellText s 0)
               @ (if TrimSpace (cellText s 1) = [] then []
                  else dash @ TrimSpace (cellText s 1))
               @ dash @ headerLabel h]"
    if "tableRows doc = [h, s]" and "isHeader h"
    using parseSubstantiv_two_rows [OF that assms] parseVerbForms_two_rows [OF that assms(1) v]
      vv
    by simp
  show ?thesis using rows pass by blast
qed

lemma ex_singular_rows:
  "tableRows ex_singular = [headerRow ''Singular'', valueRow [''en bil'', ''obest. form'']]"
  by (simp add: ex_singular_def lemmaPage_def page_def tableRows_def docFindBelow_def
      headerRow_def valueRow_def)

theorem two_cell_row_value_witness:
  "\<not> isHeader (valueRow [''en bil'', ''obest. form'']) \<and>
   length (valueCells (valueRow [''en bil'', ''obest. form''])) = 2 \<and>
   parseSubstantiv_row (valueRow [''en bil'', ''obest. form'']) (str ''Singular'', []) =
     (str ''Singular'', [str ''en bil-obest.-Singular'']) \<and>
   parseVerbForms_row (valueRow [''en bil'', ''obest. form'']) (str ''Singular'', []) =
     (str ''Singular'', [str ''en bil-obest. form-Singular'']) \<and>
   tableRows ex_singular = [headerRow ''Singular'', valueRow [''en bil'', ''obest. form'']] \<and>
   isHeader (headerRow ''Singular'') \<and>
   parseSubstantiv ex_singular = [str ''en bil-obest.-Singular''] \<and>
   parseVerbForms ex_singular = [str ''en bil-obest. form-Singular'']"
proof -
  have h: "\<not> isHeader (valueRow [''en bil'', ''obest. form''])"
    by (simp add: example_defs)
  have c: "length (valueCells (valueRow [''en bil'', ''obest. form''])) = 2"
    by (simp add: example_defs)
  have hh: "isHeader (headerRow ''Singular'')"
    by (simp add: example_defs)
  have hl: "headerLabel (headerRow ''Singular'') = str ''Singular''"
    by (simp add: example_defs)
  have t0: "TrimSpace (cellText (valueRow [''en bil'', ''obest. form'']) 0) = str ''en bil''"
    by (simp add: example_defs)
  have t1: "TrimSpace (cellText (valueRow [''en bil'', ''obest. form'']) 1) = str ''obest. form''"
    by (simp add: example_defs)
  have f1: "firstToken (cellText (valueRow [''en bil'', ''obest. form'']) 1) = str ''obest.''"
    by (simp add: firstToken_def example_defs)
  show ?thesis
    using two_cell_row_value
      [OF h c, of "str ''Singular''" "[]" ex_singular "headerRow ''Singular''"]
      h c hh ex_singular_rows
    unfolding t0 t1 f1 hl by simp
qed

text \<open>
  C6 as stated fails: the first cell enters the record whole, not by its first token,
  and in a verb pass so does the second cell.
\<close>

theorem first_token_counterexample:
  "parseSubstantiv_row (valueRow [''en bil'', ''obest. form'']) (str ''Singular'', []) =
     (str ''Singular'', [str ''en bil-obest.-Singular'']) \<and>
   firstToken (cellText (valueRow [''en bil'', ''obest. form'']) 0) = str ''en'' \<and>
   firstToken (cellText (valueRow [''en bil'', ''obest. form'']) 1) = str ''obest.'' \<and>
   parseVerbForms_row (valueRow [''springer'', ''presens aktiv'']) (str ''Finita former'', []) =
     (str ''Finita former'', [str ''springer-presens aktiv-Finita former'']) \<and>
   firstToken (cellText (valueRow [''springer'', ''presens aktiv'']) 0) = str ''springer'' \<and>
   firstToken (cellText (valueRow [''springer'', ''presens aktiv'']) 1) = str ''presens'' \<and>
   parseSubstantiv_row (valueRow [''en bil'', ''obest. form'']) (str ''Singular'', []) \<noteq>
     parseSubstantiv_row (valueRow [''en'', ''obest. form'']) (str ''Singular'', []) \<and>
   parseVerbForms_row (valueRow [''springer'', ''presens aktiv'']) (str ''Finita former'', []) \<noteq>
     parseVerbForms_row (valueRow [''springer'', ''presens passiv'']) (str ''Finita former'', [])"
proof -
  have n: "\<not> isHeader (valueRow cs)" for cs
    by (simp add: example_defs comp_def)
  have c: "length (valueCells (valueRow [a, b])) = 2" for a b
    by (simp add: example_defs)
  have t: "cellText (valueRow [a, b]) 0 = str a" "cellText (valueRow [a, b]) 1 = str b" for a b
    by (simp_all add: example_defs)
  have v: "valueCells (valueRow [a, b]) \<noteq> []" for a b
    by (simp add: example_defs)
  show ?thesis
    unfolding parseSubstantiv_row_value [OF n c] parseVerbForms_row_value [OF n v] t
      verbValue_def c
    by (simp add: firstToken_def TrimSpace_def isSpace_def)
qed

text \<open>
  C10: in an adjective pass, a row with one cell that is not a header row yields the
  record \<open>form-degree\<close>, where \<open>form\<close> is the trimmed text of the cell cut before its
  first \<open>+\<close> and trimmed again; the form holds no \<open>+\<close>, and trimming the cell before
  the cut changes nothing. For a document whose table is a header row followed by such
  a row, the extraction returns exactly that record under the header's degree.
\<close>

theorem adjektiv_form_cut_at_plus:
  assumes "\<not> isHeader s" and "length (valueCells s) = 1"
  shows "parseAdjektiv_row s (currentDegree, entries) =
           (currentDegree,
            entries @ [TrimSpace (takeWhile (\<lambda>r. r \<noteq> plus_rune) (TrimSpace (cellText s 0)))
                       @ dash @ currentDegree]) \<and>
         plus_rune \<notin> set (TrimSpace (takeWhile (\<lambda>r. r \<noteq> plus_rune) (TrimSpace (cellText s 0)))) \<and>
         TrimSpace (takeWhile (\<lambda>r. r \<noteq> plus_rune) (TrimSpace (cellText s 0))) =
           TrimSpace (takeWhile (\<lambda>r. r \<noteq> plus_rune) (cellText s 0)) \<and>
         (tableRows doc = [h, s] \<and> isHeader h \<longrightarrow>
            parseAdjektiv doc =
              [TrimSpace (takeWhile (\<lambda>r. r \<noteq> plus_rune) (cellText s 0)) @ dash
               @ headerLabel h])"
proof -
  have "plus_rune \<notin> set (takeWhile (\<lambda>r. r \<noteq> plus_rune) t)" for t
    by (auto dest: set_takeWhileD)
  then have p: "plus_rune \<notin> set (TrimSpace (takeWhile (\<lambda>r. r \<noteq> plus_rune) t))" for t
    using set_TrimSpace by blast
  have row: "parseAdjektiv_row s (currentDegree, entries) =
           (currentDegree,
            entries @ [TrimSpace (takeWhile (\<lambda>r. r \<noteq> plus_rune) (TrimSpace (cellText s 0)))
                       @ dash @ currentDegree])"
    by (rule parseAdjektiv_row_value [OF assms])
  have pass: "parseAdjektiv doc =
              [TrimSpace (takeWhile (\<lambda>r. r \<noteq> plus_rune) (cellText s 0)) @ dash
               @ headerLabel h]"
    if "tableRows doc = [h, s]" and "isHeader h"
    using parseAdjektiv_two_rows [OF that assms] unfolding trim_cut .
  show ?thesis using row p trim_cut pass by blast
qed

lemma ex_positiv_rows:
  "tableRows ex_positiv = [headerRow ''Positiv'', valueRow ['' glad + en glad nyhet '']]"
  by (simp add: ex_positiv_def lemmaPage_def page_def tableRows_def docFindBelow_def
      headerRow_def valueRow_def)

theorem adjektiv_form_cut_at_plus_witness:
  "\<not> isHeader (valueRow ['' glad + en glad nyhet '']) \<and>
   length (valueCells (valueRow ['' glad + en glad nyhet ''])) = 1 \<and>
   parseAdjektiv_row (valueRow ['' glad + en glad nyhet '']) (str ''Positiv'', []) =
     (str ''Positiv'', [str ''glad-Positiv'']) \<and>
   tableRows ex_positiv = [headerRow ''Positiv'', valueRow ['' glad + en glad nyhet '']] \<and>
   isHeader (headerRow ''Positiv'') \<and>
   parseAdjektiv ex_positiv = [str ''glad-Positiv'']"
proof -
  have h: "\<not> isHeader (valueRow ['' glad + en glad nyhet ''])"
    by (simp add: example_defs)
  have c: "length (valueCells (valueRow ['' glad + en glad nyhet ''])) = 1"
    by (simp add: example_defs)
  have hh: "isHeader (headerRow ''Positiv'')"
    by (simp add: example_defs)
  have hl: "headerLabel (headerRow ''Positiv'') = str ''Positiv''"
    by (simp add: example_defs)
  have t: "TrimSpace (takeWhile (\<lambda>r. r \<noteq> plus_rune)
             (TrimSpace (cellText (valueRow ['' glad + en glad nyhet '']) 0))) = str ''glad''"
    by (simp add: example_defs)
  have u: "TrimSpace (takeWhile (\<lambda>r. r \<noteq> plus_rune)
             (cellText (valueRow ['' glad + en glad nyhet '']) 0)) = str ''glad''"
    by (simp add: example_defs)
  show ?thesis
    using adjektiv_form_cut_at_plus
      [OF h c, of "str ''Positiv''" "[]" ex_positiv "headerRow ''Positiv''"]
      h c hh ex_positiv_rows
    unfolding t u hl by simp
qed

section \<open>Facts about the category stage\<close>

lemma verbForms0_dom:
  "dom verbForms0 =
     {str ''Finita former'', str ''Infinita former'', str ''Presens particip'',
      str ''Perfekt particip''}"
  by (auto simp: verbForms0_def split: if_splits)

lemma adjektivForms0_dom:
  "dom adjektivForms0 = {str ''Positiv'', str ''Komparativ'', str ''Superlativ''}"
  by (auto simp: adjektivForms0_def split: if_splits)

lemma verbForms0_empty: "L \<in> dom verbForms0 \<Longrightarrow> verbForms0 L = Some []"
  by (auto simp: verbForms0_def split: if_splits)

lemma verb_label_no_dash: "L \<in> dom verbForms0 \<Longrightarrow> dash_rune \<notin> set L"
  unfolding verbForms0_dom by auto

lemma fold_verb_rows:
  assumes "isHeader h1" "\<not> isHeader v1" "valueCells v1 \<noteq> []" "\<not> isHeader v2"
    "valueCells v2 \<noteq> []" "isHeader h2" "\<not> isHeader v3" "valueCells v3 \<noteq> []"
  shows "snd (fold parseVerbForms_row [h1, v1, v2, h2, v3] ([], [])) =
           [verbValue v1 @ dash @ headerLabel h1, verbValue v2 @ dash @ headerLabel h1,
            verbValue v3 @ dash @ headerLabel h2]"
  using assms by (simp add: parseVerbForms_row_header parseVerbForms_row_value)

text \<open>
  C5, as amended: for a verb document whose table rows are a header row, two value
  rows, a second header row and one value row, where the two header labels are
  different labels of the fixed set of \<^verbatim>\<open>saveVerbsJSON\<close> (\<^verbatim>\<open>Finita former\<close>,
  \<^verbatim>\<open>Infinita former\<close>, \<^verbatim>\<open>Presens particip\<close>, \<^verbatim>\<open>Perfekt particip\<close>), the entry has
  exactly the two values of the first two value rows under the first label and exactly
  the value of the last row under the second, in row order.
\<close>

theorem verb_forms_grouped:
  assumes "tableRows doc = [h1, v1, v2, h2, v3]"
    and "isHeader h1" and "isHeader h2"
    and "\<not> isHeader v1" and "valueCells v1 \<noteq> []"
    and "\<not> isHeader v2" and "valueCells v2 \<noteq> []"
    and "\<not> isHeader v3" and "valueCells v3 \<noteq> []"
    and "headerLabel h1 \<in> dom verbForms0" and "headerLabel h2 \<in> dom verbForms0"
    and "headerLabel h1 \<noteq> headerLabel h2"
  shows "Forms (verbEntry (parseVerbForms doc)) (headerLabel h1) =
           Some [verbValue v1, verbValue v2] \<and>
         Forms (verbEntry (parseVerbForms doc)) (headerLabel h2) = Some [verbValue v3]"
proof -
  let ?L1 = "headerLabel h1" and ?L2 = "headerLabel h2"
  have p: "parseVerbForms doc =
      [verbValue v1 @ dash_rune # ?L1, verbValue v2 @ dash_rune # ?L1,
       verbValue v3 @ dash_rune # ?L2]"
    unfolding parseVerbForms_def assms(1)
    using fold_verb_rows [OF assms(2,4,5,6,7,3,8,9)] by simp
  have d1: "dash_rune \<notin> set ?L1" and d2: "dash_rune \<notin> set ?L2"
    using assms(10,11) by (simp_all add: verb_label_no_dash)
  have e1: "verbForms0 ?L1 = Some []" and e2: "verbForms0 ?L2 = Some []"
    using assms(10,11) by (simp_all add: verbForms0_empty)
  have "fold bucketTagged (parseVerbForms doc) verbForms0 =
          verbForms0(?L1 \<mapsto> [verbValue v1, verbValue v2], ?L2 \<mapsto> [verbValue v3])"
    unfolding p using assms(12)
    by (simp add: bucketTagged_tagged [OF d1] bucketTagged_tagged [OF d2] e1 e2)
  then show ?thesis
    using assms(12) by (simp add: verbEntry_def)
qed

lemma ex_finita_rows:
  "tableRows ex_finita =
     [headerRow ''Finita former'', valueRow [''springer'', ''presens aktiv''],
      valueRow [''springs'', ''presens passiv''],
      headerRow ''Infinita former'', valueRow [''springa'', ''infinitiv aktiv'']]"
  by (simp add: ex_finita_def lemmaPage_def page_def tableRows_def docFindBelow_def
      headerRow_def valueRow_def)

theorem verb_forms_grouped_witness:
  "tableRows ex_finita =
     [headerRow ''Finita former'', valueRow [''springer'', ''presens aktiv''],
      valueRow [''springs'', ''presens passiv''],
      headerRow ''Infinita former'', valueRow [''springa'', ''infinitiv aktiv'']] \<and>
   headerLabel (headerRow ''Finita former'') = str ''Finita former'' \<and>
   headerLabel (headerRow ''Infinita former'') = str ''Infinita former'' \<and>
   Forms (verbEntry (parseVerbForms ex_finita)) (str ''Finita former'') =
     Some [str ''springer-presens aktiv'', str ''springs-presens passiv''] \<and>
   Forms (verbEntry (parseVerbForms ex_finita)) (str ''Infinita former'') =
     Some [str ''springa-infinitiv aktiv'']"
proof -
  have hd: "isHeader (headerRow l)" for l
    by (simp add: example_defs)
  have nh: "\<not> isHeader (valueRow cs)" for cs
    by (simp add: example_defs comp_def)
  have vc: "valueCells (valueRow [a, b]) \<noteq> []" for a b
    by (simp add: example_defs)
  have l1: "headerLabel (headerRow ''Finita former'') = str ''Finita former''"
    by (simp add: example_defs)
  have l2: "headerLabel (headerRow ''Infinita former'') = str ''Infinita former''"
    by (simp add: example_defs)
  have m1: "headerLabel (headerRow ''Finita former'') \<in> dom verbForms0"
    unfolding l1 verbForms0_dom by simp
  have m2: "headerLabel (headerRow ''Infinita former'') \<in> dom verbForms0"
    unfolding l2 verbForms0_dom by simp
  have ne: "headerLabel (headerRow ''Finita former'') \<noteq> headerLabel (headerRow ''Infinita former'')"
    unfolding l1 l2 by simp
  have v1: "verbValue (valueRow [''springer'', ''presens aktiv'']) = str ''springer-presens aktiv''"
    by (simp add: verbValue_def example_defs)
  have v2: "verbValue (valueRow [''springs'', ''presens passiv'']) = str ''springs-presens passiv''"
    by (simp add: verbValue_def example_defs)
  have v3: "verbValue (valueRow [''springa'', ''infinitiv aktiv'']) = str ''springa-infinitiv aktiv''"
    by (simp add: verbValue_def example_defs)
  show ?thesis
    using verb_forms_grouped [OF ex_finita_rows hd hd nh vc nh vc nh vc m1 m2 ne]
      ex_finita_rows l1 l2
    unfolding l1 l2 v1 v2 v3 by simp
qed

text \<open>
  C5 as stated fails: \<^verbatim>\<open>Presens\<close> and \<^verbatim>\<open>Preteritum\<close> are not keys of the map
  \<^verbatim>\<open>saveVerbsJSON\<close> starts from, so the three records the pass extracts are dropped
  and the entry has no value under either label.
\<close>

theorem presens_counterexample:
  "parseVerbForms ex_presens =
     [str ''springer-aktiv-Presens'', str ''springs-passiv-Presens'',
      str ''sprang-aktiv-Preteritum''] \<and>
   Forms (verbEntry (parseVerbForms ex_presens)) (str ''Presens'') = None \<and>
   Forms (verbEntry (parseVerbForms ex_presens)) (str ''Preteritum'') = None \<and>
   Forms (verbEntry (parseVerbForms ex_presens)) (str ''Finita former'') = Some [] \<and>
   Forms (verbEntry (parseVerbForms ex_presens)) (str ''Infinita former'') = Some [] \<and>
   Forms (verbEntry (parseVerbForms ex_presens)) (str ''Presens particip'') = Some [] \<and>
   Forms (verbEntry (parseVerbForms ex_presens)) (str ''Perfekt particip'') = Some []"
proof -
  have p: "parseVerbForms ex_presens =
     [str ''springer-aktiv-Presens'', str ''springs-passiv-Presens'',
      str ''sprang-aktiv-Preteritum'']"
    by (simp add: parseVerbForms_def parseVerbForms_row_def ex_presens_def example_defs)
  show ?thesis
    unfolding p
    by (simp add: verbEntry_def verbForms0_def bucketTagged_def LastIndex_def)
qed

lemma fold_filterStep:
  "fold (filterStep parse) order acc = acc @ map (HTML \<circ> snd) (filter (keeps parse \<circ> HTML \<circ> snd) order)"
proof (induction order arbitrary: acc)
  case Nil
  show ?case by simp
next
  case (Cons ke order)
  obtain key entry where ke: "ke = (key, entry)" by (cases ke)
  show ?case
    unfolding ke using Cons [of "filterStep parse (key, entry) acc"]
    by (cases "parse (HTML entry)") (simp_all add: filterStep_def keeps_def Let_def)
qed

lemma FilterLemmasByOrdklass_kept:
  "FilterLemmasByOrdklass parse (Inr order) =
     Inr (map (HTML \<circ> snd) (filter (keeps parse \<circ> HTML \<circ> snd) order))"
  by (simp add: FilterLemmasByOrdklass_def fold_filterStep)

lemma classify_kept:
  assumes "\<forall>h\<in>set hs. keeps parse h"
  shows "classify parse hs (nouns, verbs, adjectives) =
     Inr (nouns @ map (\<lambda>h. parseSubstantiv (parsed parse h))
                    (filter (\<lambda>h. switchKey parse h = str ''substantiv'') hs),
          verbs @ map (\<lambda>h. parseVerbForms (parsed parse h))
                    (filter (\<lambda>h. switchKey parse h = str ''verb'') hs),
          adjectives @ map (\<lambda>h. parseAdjektiv (parsed parse h))
                    (filter (\<lambda>h. switchKey parse h = str ''adjektiv'') hs))"
  using assms
proof (induction hs arbitrary: nouns verbs adjectives)
  case Nil
  show ?case by simp
next
  case (Cons h hs)
  then obtain doc where d: "parse h = Inr doc"
    by (cases "parse h") (simp_all add: keeps_def)
  have p: "parsed parse h = doc" by (simp add: parsed_def d)
  have rest: "\<forall>h\<in>set hs. keeps parse h" using Cons.prems by simp
  show ?case
    using Cons.IH [OF rest] by (simp add: d switchKey_def p Let_def)
qed

lemma main_category_files:
  "main_category parse write (Inr order) =
     (let kept = map (HTML \<circ> snd) (filter (keeps parse \<circ> HTML \<circ> snd) order);
          adjs = saveAdjectivesJSON
                   (map (\<lambda>h. parseAdjektiv (parsed parse h))
                      (filter (\<lambda>h. switchKey parse h = str ''adjektiv'') kept))
                   (str ''adjectives.json'');
          verbs = saveVerbsJSON
                    (map (\<lambda>h. parseVerbForms (parsed parse h))
                       (filter (\<lambda>h. switchKey parse h = str ''verb'') kept))
                    (str ''verbs.json'')
      in case write (str ''adjectives.json'') of
           Some err \<Rightarrow> \<lparr>files = [], fatal = Some (ErrWrite (str ''adjectives.json'') err)\<rparr>
         | None \<Rightarrow>
             (case write (str ''verbs.json'') of
                Some err \<Rightarrow> \<lparr>files = [adjs], fatal = Some (ErrWrite (str ''verbs.json'') err)\<rparr>
              | None \<Rightarrow> \<lparr>files = [adjs, verbs], fatal = None\<rparr>))"
proof -
  have "\<forall>h\<in>set (map (HTML \<circ> snd) (filter (keeps parse \<circ> HTML \<circ> snd) order)). keeps parse h"
    by auto
  from classify_kept [OF this, of "[]" "[]" "[]"] show ?thesis
    by (simp add: main_category_def FilterLemmasByOrdklass_kept Let_def
        split: option.splits)
qed

lemma dom_adjektivEntry:
  "dom (Forms (adjektivEntry raw)) = {str ''Positiv'', str ''Komparativ'', str ''Superlativ''}"
  unfolding adjektivEntry_def by (simp add: dom_fold_bucketTagged adjektivForms0_dom)

lemma dom_verbEntry:
  "dom (Forms (verbEntry raw)) =
     {str ''Finita former'', str ''Infinita former'', str ''Presens particip'',
      str ''Perfekt particip''}"
  unfolding verbEntry_def by (simp add: dom_fold_bucketTagged verbForms0_dom)

lemma fold_appendSlice:
  "fold (\<lambda>x out. appendSlice out (f x)) xs (Slice ys) = Slice (ys @ map f xs)"
  by (induction xs arbitrary: ys) simp_all

lemma saveVerbsJSON_slice:
  "saveVerbsJSON all filename =
     (filename, if all = [] then NilSlice else Slice (map verbEntry all))"
  by (cases all) (simp_all add: saveVerbsJSON_def fold_appendSlice)

text \<open>
  C9, as amended: a run of the category stage that ends without a fatal error has
  written exactly two files, \<^verbatim>\<open>adjectives.json\<close> and then \<^verbatim>\<open>verbs.json\<close>. The first
  is the sequence of one entry per kept adjective lemma, in the order kept, each with the
  class \<^verbatim>\<open>adjektiv\<close> and a \<^verbatim>\<open>forms\<close> map whose keys are the three degrees. When the
  run kept at least one verb lemma, the second is the sequence of one entry per kept verb
  lemma, in the order kept; whenever it is a sequence, each entry has the class
  \<^verbatim>\<open>verb\<close> and a \<^verbatim>\<open>forms\<close> map whose keys are the four verb labels.
\<close>

theorem category_files:
  assumes "fatal (main_category parse write loaded) = None"
  shows "\<exists>order A V.
           loaded = Inr order \<and>
           files (main_category parse write loaded) =
             [(str ''adjectives.json'', Slice A), (str ''verbs.json'', V)] \<and>
           A = map (\<lambda>h. adjektivEntry (parseAdjektiv (parsed parse h)))
                 (filter (\<lambda>h. switchKey parse h = str ''adjektiv'') (keptLemmas parse order)) \<and>
           (\<forall>e\<in>set A. Class e = str ''adjektiv'' \<and>
              dom (Forms e) = {str ''Positiv'', str ''Komparativ'', str ''Superlativ''}) \<and>
           (filter (\<lambda>h. switchKey parse h = str ''verb'') (keptLemmas parse order) \<noteq> [] \<longrightarrow>
              V = Slice (map (\<lambda>h. verbEntry (parseVerbForms (parsed parse h)))
                           (filter (\<lambda>h. switchKey parse h = str ''verb'')
                              (keptLemmas parse order)))) \<and>
           (\<forall>es. V = Slice es \<longrightarrow>
              (\<forall>e\<in>set es. Class e = str ''verb'' \<and>
                 dom (Forms e) =
                   {str ''Finita former'', str ''Infinita former'', str ''Presens particip'',
                    str ''Perfekt particip''}))"
proof -
  obtain order where l: "loaded = Inr order"
    using assms
    by (cases loaded) (simp_all add: main_category_def FilterLemmasByOrdklass_def)
  define AL where
    "AL = map (\<lambda>h. parseAdjektiv (parsed parse h))
            (filter (\<lambda>h. switchKey parse h = str ''adjektiv'') (keptLemmas parse order))"
  define VL where
    "VL = map (\<lambda>h. parseVerbForms (parsed parse h))
            (filter (\<lambda>h. switchKey parse h = str ''verb'') (keptLemmas parse order))"
  have r: "main_category parse write (Inr order) =
      (case write (str ''adjectives.json'') of
         Some err \<Rightarrow> \<lparr>files = [], fatal = Some (ErrWrite (str ''adjectives.json'') err)\<rparr>
       | None \<Rightarrow>
           (case write (str ''verbs.json'') of
              Some err \<Rightarrow>
                \<lparr>files = [saveAdjectivesJSON AL (str ''adjectives.json'')],
                 fatal = Some (ErrWrite (str ''verbs.json'') err)\<rparr>
            | None \<Rightarrow>
                \<lparr>files = [saveAdjectivesJSON AL (str ''adjectives.json''),
                          saveVerbsJSON VL (str ''verbs.json'')],
                 fatal = None\<rparr>))"
    unfolding main_category_files Let_def AL_def VL_def keptLemmas_def ..
  have f: "files (main_category parse write loaded) =
      [saveAdjectivesJSON AL (str ''adjectives.json''), saveVerbsJSON VL (str ''verbs.json'')]"
    using assms unfolding l r by (simp split: option.splits)
  define A where "A = map adjektivEntry AL"
  define V where "V = (if VL = [] then NilSlice else Slice (map verbEntry VL))"
  have f': "files (main_category parse write loaded) =
      [(str ''adjectives.json'', Slice A), (str ''verbs.json'', V)]"
    unfolding f saveAdjectivesJSON_def saveVerbsJSON_slice A_def V_def ..
  have a1: "A = map (\<lambda>h. adjektivEntry (parseAdjektiv (parsed parse h)))
                 (filter (\<lambda>h. switchKey parse h = str ''adjektiv'') (keptLemmas parse order))"
    unfolding A_def AL_def by (simp add: comp_def)
  have a2: "\<forall>e\<in>set A. Class e = str ''adjektiv'' \<and>
             dom (Forms e) = {str ''Positiv'', str ''Komparativ'', str ''Superlativ''}"
    unfolding A_def using dom_adjektivEntry by (auto simp: adjektivEntry_def)
  have v1: "filter (\<lambda>h. switchKey parse h = str ''verb'') (keptLemmas parse order) \<noteq> [] \<longrightarrow>
              V = Slice (map (\<lambda>h. verbEntry (parseVerbForms (parsed parse h)))
                           (filter (\<lambda>h. switchKey parse h = str ''verb'')
                              (keptLemmas parse order)))"
    unfolding V_def VL_def by (simp add: comp_def)
  have v2: "\<forall>es. V = Slice es \<longrightarrow>
              (\<forall>e\<in>set es. Class e = str ''verb'' \<and>
                 dom (Forms e) =
                   {str ''Finita former'', str ''Infinita former'', str ''Presens particip'',
                    str ''Perfekt particip''})"
    unfolding V_def using dom_verbEntry by (auto simp: verbEntry_def split: if_splits)
  show ?thesis
    by (intro exI conjI) (rule l f' a1 a2 v1 v2)+
qed

lemma ex_parse_lemmas:
  "ex_parse springa_html = Inr ex_finita" "ex_parse hoppa_html = Inr ex_hoppa"
  "ex_parse bil_html = Inr ex_bil" "ex_parse glad_html = Inr ex_glad"
  "ex_parse ofta_html = Inr ex_ofta"
  by (simp_all add: ex_parse_def springa_html_def hoppa_html_def bil_html_def glad_html_def
      ofta_html_def)

lemma ex_keeps:
  "keeps ex_parse springa_html" "keeps ex_parse hoppa_html" "keeps ex_parse bil_html"
  "keeps ex_parse glad_html" "keeps ex_parse ofta_html"
  by (simp_all add: keeps_def ex_parse_lemmas ex_finita_def ex_hoppa_def ex_bil_def
      ex_glad_def ex_ofta_def allowedOrdklass_def example_defs)

lemma ex_switchKey:
  "switchKey ex_parse springa_html = str ''verb''" "switchKey ex_parse hoppa_html = str ''verb''"
  by (simp_all add: switchKey_def parsed_def ex_parse_lemmas ex_finita_def ex_hoppa_def
      example_defs)

lemma ex_verb_forms:
  "parseVerbForms (parsed ex_parse springa_html) =
     [str ''springer-presens aktiv-Finita former'', str ''springs-presens passiv-Finita former'',
      str ''springa-infinitiv aktiv-Infinita former'']"
  "parseVerbForms (parsed ex_parse hoppa_html) = [str ''hoppar-presens aktiv-Finita former'']"
  by (simp_all add: parsed_def ex_parse_lemmas parseVerbForms_def parseVerbForms_row_def
      ex_finita_def ex_hoppa_def example_defs)

lemma ex_adjektiv_forms:
  "parseAdjektiv (parsed ex_parse glad_html) = [str ''glad-Positiv'', str ''gladare-Komparativ'']"
  by (simp add: parsed_def ex_parse_lemmas parseAdjektiv_def parseAdjektiv_row_def
      SplitN2_def ex_glad_def example_defs)

lemma ex_switchKey_others:
  "switchKey ex_parse bil_html = str ''substantiv''"
  "switchKey ex_parse glad_html = str ''adjektiv''"
  "switchKey ex_parse ofta_html = str ''adverb''"
  by (simp_all add: switchKey_def parsed_def ex_parse_lemmas ex_bil_def ex_glad_def
      ex_ofta_def example_defs)

lemma ex_keptLemmas:
  "keptLemmas ex_parse ex_lemmas = [bil_html, glad_html, springa_html, ofta_html]"
  by (simp add: keptLemmas_def ex_lemmas_def ex_keeps)

theorem category_files_witness:
  "fatal (main_category ex_parse (\<lambda>filename. None) (Inr ex_lemmas)) = None \<and>
   filter (\<lambda>h. switchKey ex_parse h = str ''verb'') (keptLemmas ex_parse ex_lemmas) =
     [springa_html] \<and>
   map fst (files (main_category ex_parse (\<lambda>filename. None) (Inr ex_lemmas))) =
     [str ''adjectives.json'', str ''verbs.json''] \<and>
   map snd (files (main_category ex_parse (\<lambda>filename. None) (Inr ex_lemmas))) =
     [Slice [adjektivEntry [str ''glad-Positiv'', str ''gladare-Komparativ'']],
      Slice [verbEntry [str ''springer-presens aktiv-Finita former'',
                        str ''springs-presens passiv-Finita former'',
                        str ''springa-infinitiv aktiv-Infinita former'']]]"
proof -
  have h: "fatal (main_category ex_parse (\<lambda>filename. None) (Inr ex_lemmas)) = None"
    by (simp add: main_category_files Let_def)
  have fa: "filter (\<lambda>h. switchKey ex_parse h = str ''adjektiv'') (keptLemmas ex_parse ex_lemmas) =
            [glad_html]"
    unfolding ex_keptLemmas by (simp add: ex_switchKey ex_switchKey_others)
  have fv: "filter (\<lambda>h. switchKey ex_parse h = str ''verb'') (keptLemmas ex_parse ex_lemmas) =
            [springa_html]"
    unfolding ex_keptLemmas by (simp add: ex_switchKey ex_switchKey_others)
  from category_files [OF h] obtain order A V where
    big: "Inr ex_lemmas = (Inr order :: fatal + (gostring \<times> LemmaInput) list) \<and>
          files (main_category ex_parse (\<lambda>filename. None) (Inr ex_lemmas)) =
             [(str ''adjectives.json'', Slice A), (str ''verbs.json'', V)] \<and>
          A = map (\<lambda>h. adjektivEntry (parseAdjektiv (parsed ex_parse h)))
                 (filter (\<lambda>h. switchKey ex_parse h = str ''adjektiv'')
                    (keptLemmas ex_parse order)) \<and>
          (\<forall>e\<in>set A. Class e = str ''adjektiv'' \<and>
              dom (Forms e) = {str ''Positiv'', str ''Komparativ'', str ''Superlativ''}) \<and>
          (filter (\<lambda>h. switchKey ex_parse h = str ''verb'') (keptLemmas ex_parse order) \<noteq> [] \<longrightarrow>
              V = Slice (map (\<lambda>h. verbEntry (parseVerbForms (parsed ex_parse h)))
                           (filter (\<lambda>h. switchKey ex_parse h = str ''verb'')
                              (keptLemmas ex_parse order)))) \<and>
          (\<forall>es. V = Slice es \<longrightarrow>
              (\<forall>e\<in>set es. Class e = str ''verb'' \<and>
                 dom (Forms e) =
                   {str ''Finita former'', str ''Infinita former'', str ''Presens particip'',
                    str ''Perfekt particip''}))"
    by (elim exE)
  note o = big [THEN conjunct1]
  note f = big [THEN conjunct2, THEN conjunct1]
  note a = big [THEN conjunct2, THEN conjunct2, THEN conjunct1]
  note v = big [THEN conjunct2, THEN conjunct2, THEN conjunct2, THEN conjunct2, THEN conjunct1]
  have oe: "order = ex_lemmas" using o by simp
  have A: "A = [adjektivEntry [str ''glad-Positiv'', str ''gladare-Komparativ'']]"
    unfolding a oe fa by (simp add: ex_adjektiv_forms)
  have V: "V = Slice [verbEntry [str ''springer-presens aktiv-Finita former'',
                        str ''springs-presens passiv-Finita former'',
                        str ''springa-infinitiv aktiv-Infinita former'']]"
    using v unfolding oe fv by (simp add: ex_verb_forms)
  show ?thesis
    unfolding f A V using h fv by simp
qed

text \<open>
  Where the run keeps no verb lemma, \<^verbatim>\<open>saveVerbsJSON\<close> hands its \<^verbatim>\<open>nil\<close> slice to the
  encoder, which writes \<^verbatim>\<open>null\<close>; \<^verbatim>\<open>saveAdjectivesJSON\<close> would write \<^verbatim>\<open>[]\<close>.
\<close>

lemma verbs_json_nil:
  "fatal (main_category ex_parse (\<lambda>filename. None) (Inr ex_noverb)) = None \<and>
   snd (files (main_category ex_parse (\<lambda>filename. None) (Inr ex_noverb)) ! 1) = NilSlice \<and>
   snd (saveAdjectivesJSON [] (str ''adjectives.json'')) = Slice []"
  by (simp add: main_category_files Let_def ex_noverb_def ex_keeps ex_switchKey_others
      saveVerbsJSON_def saveAdjectivesJSON_def)

text \<open>
  C9 as stated fails: in a run that keeps a noun, an adjective, a verb and an adverb
  and ends without a fatal error, two files are written, none for \<^verbatim>\<open>substantiv\<close> and
  none for \<^verbatim>\<open>adverb\<close>.
\<close>

theorem two_files_counterexample:
  "FilterLemmasByOrdklass ex_parse (Inr ex_lemmas) =
     Inr [bil_html, glad_html, springa_html, ofta_html] \<and>
   fatal (main_category ex_parse (\<lambda>filename. None) (Inr ex_lemmas)) = None \<and>
   map fst (files (main_category ex_parse (\<lambda>filename. None) (Inr ex_lemmas))) =
     [str ''adjectives.json'', str ''verbs.json'']"
  by (simp add: main_category_files FilterLemmasByOrdklass_kept Let_def ex_lemmas_def ex_keeps
      saveAdjectivesJSON_def saveVerbsJSON_def)

lemma mset_map_filter:
  "mset xs = mset ys \<Longrightarrow> mset (map f (filter p xs)) = mset (map f (filter p ys))"
  by (metis mset_filter mset_map)

lemma category_permuted:
  assumes "mset order1 = mset order2"
  shows "fatal (main_category parse write (Inr order1)) =
           fatal (main_category parse write (Inr order2)) \<and>
         map fst (files (main_category parse write (Inr order1))) =
           map fst (files (main_category parse write (Inr order2))) \<and>
         map (\<lambda>f. bag (snd f)) (files (main_category parse write (Inr order1))) =
           map (\<lambda>f. bag (snd f)) (files (main_category parse write (Inr order2)))"
proof -
  define kept where
    "kept order = map (HTML \<circ> snd) (filter (keeps parse \<circ> HTML \<circ> snd) order)"
    for order :: "(gostring \<times> LemmaInput) list"
  define AL where
    "AL order = map (\<lambda>h. parseAdjektiv (parsed parse h))
                  (filter (\<lambda>h. switchKey parse h = str ''adjektiv'') (kept order))" for order
  define VL where
    "VL order = map (\<lambda>h. parseVerbForms (parsed parse h))
                  (filter (\<lambda>h. switchKey parse h = str ''verb'') (kept order))" for order
  define adjs where "adjs order = saveAdjectivesJSON (AL order) (str ''adjectives.json'')" for order
  define verbs where "verbs order = saveVerbsJSON (VL order) (str ''verbs.json'')" for order
  have k: "mset (kept order1) = mset (kept order2)"
    unfolding kept_def by (rule mset_map_filter) (rule assms)
  have al: "mset (AL order1) = mset (AL order2)"
    unfolding AL_def by (rule mset_map_filter) (rule k)
  have vl: "mset (VL order1) = mset (VL order2)"
    unfolding VL_def by (rule mset_map_filter) (rule k)
  have ale: "mset (map adjektivEntry (AL order1)) = mset (map adjektivEntry (AL order2))"
    using al by (metis mset_map)
  have vle: "mset (map verbEntry (VL order1)) = mset (map verbEntry (VL order2))"
    using vl by (metis mset_map)
  have vn: "VL order1 = [] \<longleftrightarrow> VL order2 = []"
    using vl by (metis mset_zero_iff)
  have a: "fst (adjs order1) = fst (adjs order2)"
    by (simp add: adjs_def saveAdjectivesJSON_def)
  have v: "fst (verbs order1) = fst (verbs order2)"
    by (simp add: verbs_def saveVerbsJSON_slice)
  have am: "bag (snd (adjs order1)) = bag (snd (adjs order2))"
    unfolding adjs_def saveAdjectivesJSON_def snd_conv bag_def slice.case ale ..
  have vm: "bag (snd (verbs order1)) = bag (snd (verbs order2))"
  proof (cases "VL order1 = []")
    case True
    then have "VL order2 = []" using vn by simp
    with True show ?thesis by (simp add: verbs_def saveVerbsJSON_slice)
  next
    case False
    then have "VL order2 \<noteq> []" using vn by simp
    with False show ?thesis
      unfolding verbs_def saveVerbsJSON_slice snd_conv bag_def using vle by simp
  qed
  have r: "main_category parse write (Inr order) =
      (case write (str ''adjectives.json'') of
         Some err \<Rightarrow> \<lparr>files = [], fatal = Some (ErrWrite (str ''adjectives.json'') err)\<rparr>
       | None \<Rightarrow>
           (case write (str ''verbs.json'') of
              Some err \<Rightarrow>
                \<lparr>files = [adjs order], fatal = Some (ErrWrite (str ''verbs.json'') err)\<rparr>
            | None \<Rightarrow> \<lparr>files = [adjs order, verbs order], fatal = None\<rparr>))" for order
    unfolding main_category_files Let_def adjs_def verbs_def AL_def VL_def kept_def ..
  show ?thesis
  proof (cases "write (str ''adjectives.json'')")
    case (Some err)
    then show ?thesis unfolding r by simp
  next
    case None
    note n = this
    show ?thesis
    proof (cases "write (str ''verbs.json'')")
      case (Some err)
      then show ?thesis unfolding r n using a am by simp
    next
      case None
      then show ?thesis unfolding r n using a am v vm by simp
    qed
  qed
qed

text \<open>
  C2, as amended: two runs of a worker-pool program on the same input write the same
  output whatever the orders in which the results arrive; two runs of the category
  stage on the same decoded map, iterated in any two orders, end the same way and write
  files of the same names holding the same entries, each the same number of times (or
  both \<^verbatim>\<open>null\<close>), but not necessarily in the same order.
\<close>

theorem output_determined_up_to_entry_order:
  assumes "mset arrived1 = mset (worker parse Html (dispatch_flat 0 input))"
    and "mset arrived2 = mset (worker parse Html (dispatch_flat 0 input))"
    and "mset cleaned1 = mset (worker_clean parse Html (dispatch_clean 0 input))"
    and "mset cleaned2 = mset (worker_clean parse Html (dispatch_clean 0 input))"
    and "mset order1 = mset order2"
  shows "finalOutput arrived1 = finalOutput arrived2 \<and>
         finalOutput_clean cleaned1 = finalOutput_clean cleaned2 \<and>
         fatal (main_category parse write (Inr order1)) =
           fatal (main_category parse write (Inr order2)) \<and>
         map fst (files (main_category parse write (Inr order1))) =
           map fst (files (main_category parse write (Inr order2))) \<and>
         map (\<lambda>f. bag (snd f)) (files (main_category parse write (Inr order1))) =
           map (\<lambda>f. bag (snd f)) (files (main_category parse write (Inr order2)))"
proof -
  have "finalOutput arrived1 = finalOutput arrived2"
    unfolding finalOutput_def finalOutput_sequential [OF assms(1)]
      finalOutput_sequential [OF assms(2)] ..
  moreover have "finalOutput_clean cleaned1 = finalOutput_clean cleaned2"
    unfolding finalOutput_clean_def finalOutput_clean_sequential [OF assms(3)]
      finalOutput_clean_sequential [OF assms(4)] ..
  ultimately show ?thesis
    using category_permuted [OF assms(5), of parse "write"] by simp
qed

theorem output_determined_up_to_entry_order_witness:
  "mset ex_verbs12 = mset ex_verbs21 \<and>
   finalOutput (rev (worker ex_parse ex_Html (dispatch_flat 0 ex_input))) =
     finalOutput (worker ex_parse ex_Html (dispatch_flat 0 ex_input)) \<and>
   finalOutput_clean (rev (worker_clean ex_parse ex_Html (dispatch_clean 0 ex_input))) =
     finalOutput_clean (worker_clean ex_parse ex_Html (dispatch_clean 0 ex_input)) \<and>
   map (\<lambda>f. bag (snd f)) (files (main_category ex_parse (\<lambda>filename. None) (Inr ex_verbs12))) =
     map (\<lambda>f. bag (snd f)) (files (main_category ex_parse (\<lambda>filename. None) (Inr ex_verbs21)))"
proof -
  have a: "mset (rev (worker ex_parse ex_Html (dispatch_flat 0 ex_input))) =
           mset (worker ex_parse ex_Html (dispatch_flat 0 ex_input))"
    by simp
  have b: "mset (worker ex_parse ex_Html (dispatch_flat 0 ex_input)) =
           mset (worker ex_parse ex_Html (dispatch_flat 0 ex_input))"
    by simp
  have c: "mset (rev (worker_clean ex_parse ex_Html (dispatch_clean 0 ex_input))) =
           mset (worker_clean ex_parse ex_Html (dispatch_clean 0 ex_input))"
    by simp
  have d: "mset (worker_clean ex_parse ex_Html (dispatch_clean 0 ex_input)) =
           mset (worker_clean ex_parse ex_Html (dispatch_clean 0 ex_input))"
    by simp
  have e: "mset ex_verbs12 = mset ex_verbs21"
    by (simp add: ex_verbs12_def ex_verbs21_def)
  show ?thesis
    using output_determined_up_to_entry_order [OF a b c d e, of "\<lambda>filename. None"] e
    by simp
qed

text \<open>
  C2 as stated fails in the category stage: the same decoded map, iterated in its two
  possible orders, gives \<^verbatim>\<open>verbs.json\<close> with its two entries in opposite orders.
\<close>

theorem iteration_order_counterexample:
  "map_of ex_verbs12 = map_of ex_verbs21 \<and>
   Forms (items (snd (files (main_category ex_parse (\<lambda>filename. None) (Inr ex_verbs12)) ! 1)) ! 0)
       (str ''Finita former'') =
     Some [str ''springer-presens aktiv'', str ''springs-presens passiv''] \<and>
   Forms (items (snd (files (main_category ex_parse (\<lambda>filename. None) (Inr ex_verbs21)) ! 1)) ! 0)
       (str ''Finita former'') =
     Some [str ''hoppar-presens aktiv''] \<and>
   files (main_category ex_parse (\<lambda>filename. None) (Inr ex_verbs12)) \<noteq>
     files (main_category ex_parse (\<lambda>filename. None) (Inr ex_verbs21))"
proof -
  have m: "map_of ex_verbs12 = map_of ex_verbs21"
    by (rule ext) (simp add: ex_verbs12_def ex_verbs21_def)
  have f12: "Forms (items (snd (files (main_category ex_parse (\<lambda>filename. None) (Inr ex_verbs12)) ! 1)) ! 0)
       (str ''Finita former'') =
     Some [str ''springer-presens aktiv'', str ''springs-presens passiv'']"
    by (simp add: main_category_files Let_def ex_verbs12_def ex_keeps ex_switchKey
        ex_verb_forms saveVerbsJSON_def verbEntry_def verbForms0_def bucketTagged_def
        LastIndex_def)
  have f21: "Forms (items (snd (files (main_category ex_parse (\<lambda>filename. None) (Inr ex_verbs21)) ! 1)) ! 0)
       (str ''Finita former'') =
     Some [str ''hoppar-presens aktiv'']"
    by (simp add: main_category_files Let_def ex_verbs21_def ex_keeps ex_switchKey
        ex_verb_forms saveVerbsJSON_def verbEntry_def verbForms0_def bucketTagged_def
        LastIndex_def)
  have "files (main_category ex_parse (\<lambda>filename. None) (Inr ex_verbs12)) \<noteq>
        files (main_category ex_parse (\<lambda>filename. None) (Inr ex_verbs21))"
  proof
    assume "files (main_category ex_parse (\<lambda>filename. None) (Inr ex_verbs12)) =
            files (main_category ex_parse (\<lambda>filename. None) (Inr ex_verbs21))"
    then show False using f12 f21 by simp
  qed
  then show ?thesis using m f12 f21 by simp
qed

end
